theory Spec2Isabelle
  imports Main
begin

section \<open>Data model of the agent cluster\<close>

text \<open>
  The embedding follows \<^verbatim>\<open>core/Agent.ts\<close>, \<^verbatim>\<open>core/RootAgent.ts\<close>,
  \<^verbatim>\<open>core/ChildAgent.ts\<close> (the variant that consults the reasoning service),
  \<^verbatim>\<open>core/Monitor.ts\<close> and the interfaces of \<^verbatim>\<open>types\<close>.

  Mutation is explicit state passing. What the code asks of its surroundings is read from
  an environment record: the values returned by \<^verbatim>\<open>uuidv4()\<close> and
  \<^verbatim>\<open>new Date()\<close>, the answers (or failures) of the reasoning service, the
  template store, and the keyword analysis of \<^verbatim>\<open>analyzeTaskDescription\<close>
  (whose keyword table is made of non-ASCII literals). A world record counts how many
  readings were taken, so that every call sees the next reading, and it collects the
  state records handed to \<^verbatim>\<open>Storage.saveAgentState\<close> and the invocations of
  \<^verbatim>\<open>terminate\<close>.

  Three things are taken as given and are not part of the model: file-system calls of the
  storage layer complete without rejecting, the reasoning service has been installed
  (so that \<^verbatim>\<open>getLLMService()\<close> returns it), and no timer tick of a Monitor runs
  in the middle of an operation.
\<close>

datatype AgentStatus = IDLE | PENDING | RUNNING | COMPLETED | FAILED | TERMINATED | ERROR_LOOP

datatype AgentType = ROOT | CHILD

datatype MonitorEventType =
  ERROR_DETECTED | LOOP_DETECTED | TIMEOUT | AGENT_TERMINATED | AGENT_RECREATED

text \<open>Values of type \<^verbatim>\<open>any\<close>. Numbers are integers here; a Date is its reading.\<close>

datatype jsval =
  JUndefined | JNull | JBool bool | JNum int | JStr string
  | JArr "jsval list" | JObj "(string \<times> jsval) list"

type_synonym jsobj = "(string \<times> jsval) list"

fun truthy :: "jsval \<Rightarrow> bool" where
  "truthy JUndefined = False"
| "truthy JNull = False"
| "truthy (JBool b) = b"
| "truthy (JNum n) = (n \<noteq> 0)"
| "truthy (JStr s) = (s \<noteq> [])"
| "truthy (JArr xs) = True"
| "truthy (JObj kvs) = True"

text \<open>Property read \<^verbatim>\<open>obj?.key\<close>: a missing object or key reads as undefined.\<close>

definition js_get :: "jsobj option \<Rightarrow> string \<Rightarrow> jsval" where
  "js_get obj k =
     (case obj of None \<Rightarrow> JUndefined
      | Some kvs \<Rightarrow> (case map_of kvs k of None \<Rightarrow> JUndefined | Some v \<Rightarrow> v))"

text \<open>An optional property of an object literal: the key may be missing, or present and
  undefined, or present with a value. A spread copies the last two.\<close>

datatype 'a field = Absent | Undef | Val 'a

definition spread_over :: "'a field \<Rightarrow> 'a field \<Rightarrow> 'a field" where
  "spread_over dflt given = (case given of Absent \<Rightarrow> dflt | _ \<Rightarrow> given)"

definition str_or :: "string field \<Rightarrow> string \<Rightarrow> string" where
  "str_or f dflt = (case f of Val s \<Rightarrow> (if s = [] then dflt else s) | _ \<Rightarrow> dflt)"

definition field_opt :: "'a field \<Rightarrow> 'a option" where
  "field_opt f = (case f of Val v \<Rightarrow> Some v | _ \<Rightarrow> None)"

text \<open>The interfaces of \<^verbatim>\<open>types\<close>. An optional field of a task or of a result is an
  option, with \<open>None\<close> for a missing or undefined value; the \<^verbatim>\<open>output\<close> of a
  result, of type \<^verbatim>\<open>any\<close>, is \<open>JUndefined\<close> when missing. The optional fields of
  a configuration are fields in the sense above, since configurations are spread.\<close>

record ITask =
  task_id :: string
  task_description :: string
  task_context :: "jsobj option"
  task_parentTaskId :: "string option"
  task_createdAt :: nat
  task_deadline :: "nat option"

record ITaskResult =
  res_taskId :: string
  res_success :: bool
  res_output :: jsval
  res_error :: "string option"
  res_completedAt :: nat
  res_selfTestPassed :: "bool option"

record IAgentConfig =
  cfg_id :: "string field"
  cfg_name :: string
  cfg_type :: AgentType
  cfg_parentId :: "string field"
  cfg_agentMdPath :: "string field"
  cfg_maxRetries :: "int field"
  cfg_timeout :: "int field"
  cfg_enableMonitor :: "bool field"
  cfg_description :: "string field"
  cfg_template :: "string field"

record IMonitorEvent =
  ev_type :: MonitorEventType
  ev_agentId :: string
  ev_timestamp :: nat
  ev_details :: jsobj

record Monitor =
  mon_isRunning :: bool
  mon_eventHistory :: "IMonitorEvent list"

record TaskState =
  ts_currentTaskId :: "string option"
  ts_taskHistory :: "string list"
  ts_completedTasks :: "string list"

record IAgentContext =
  ctx_conversationHistory :: "(string \<times> string \<times> nat) list"
  ctx_taskState :: "TaskState option"
  ctx_executionLog :: "(string \<times> string \<times> nat) list"
  ctx_customData :: "jsobj option"

text \<open>The fields of an \<^verbatim>\<open>Agent\<close> object other than its children map.\<close>

record agent_core =
  ag_id :: string
  ag_name :: string
  ag_type :: AgentType
  ag_parentId :: "string option"
  ag_createdAt :: nat
  ag_status :: AgentStatus
  ag_currentTask :: "ITask option"
  ag_description :: string
  ag_template :: string
  ag_context :: IAgentContext
  ag_config :: IAgentConfig
  ag_monitor :: "Monitor option"
  ag_errorCount :: nat
  ag_lastError :: "string option"
  ag_errorHistory :: "string list"
  ag_updatedAt :: nat
  ag_agentMdContent :: "string option"

text \<open>A node owns its children: an insertion-ordered map from id to node.\<close>

datatype agent = Agent (core: agent_core) (children: "(string \<times> agent) list")

text \<open>What \<^verbatim>\<open>saveAgentState(key, state)\<close> is handed, abridged to the key, the
  status at the time of the call and the task result carried along, if any.\<close>

record state_write =
  sw_key :: string
  sw_status :: AgentStatus
  sw_result :: "ITaskResult option"

record world =
  uuidReads :: nat
  dateReads :: nat
  oracleCalls :: nat
  storageLog :: "state_write list"
  terminateLog :: "(string \<times> string option) list"

text \<open>A thrown value: an \<^verbatim>\<open>Error\<close> with its message, or anything else with its
  string rendering.\<close>

datatype thrown = ErrorObj string | OtherValue string

fun error_message :: "thrown \<Rightarrow> string" where
  "error_message (ErrorObj m) = m"
| "error_message (OtherValue s) = s"

fun thrown_toString :: "thrown \<Rightarrow> string" where
  "thrown_toString (ErrorObj m) = (if m = [] then ''Error'' else ''Error: '' @ m)"
| "thrown_toString (OtherValue s) = s"

datatype 'a outcome = Returns 'a | Throws thrown

record exec_result =
  ex_success :: bool
  ex_output :: string
  ex_reasoning :: "string option"

record test_result =
  st_passed :: bool
  st_feedback :: string

record env =
  uuidv4 :: "nat \<Rightarrow> string"
  date :: "nat \<Rightarrow> nat"
  llm_executeTask :: "nat \<Rightarrow> jsval \<Rightarrow> jsobj option \<Rightarrow> exec_result outcome"
  llm_selfTest :: "nat \<Rightarrow> string \<Rightarrow> string \<Rightarrow> test_result outcome"
  analyzeTaskDescription :: "string \<Rightarrow> string list"
  storage_loadAgentMd :: "string \<Rightarrow> string option"

definition new_Date :: "env \<Rightarrow> world \<Rightarrow> nat \<times> world" where
  "new_Date e w = (date e (dateReads w), w\<lparr>dateReads := Suc (dateReads w)\<rparr>)"

definition new_uuid :: "env \<Rightarrow> world \<Rightarrow> string \<times> world" where
  "new_uuid e w = (uuidv4 e (uuidReads w), w\<lparr>uuidReads := Suc (uuidReads w)\<rparr>)"

section \<open>Agent: state, status, error history\<close>

definition saveState :: "agent_core \<Rightarrow> world \<Rightarrow> world" where
  "saveState c w =
     w\<lparr>storageLog := storageLog w @
        [\<lparr>sw_key = ag_id c, sw_status = ag_status c, sw_result = None\<rparr>]\<rparr>"

definition updateStatus :: "env \<Rightarrow> AgentStatus \<Rightarrow> agent_core \<Rightarrow> world \<Rightarrow> agent_core \<times> world" where
  "updateStatus e s c w =
     (let (d, w1) = new_Date e w;
          c1 = c\<lparr>ag_status := s, ag_updatedAt := d\<rparr>
      in (c1, saveState c1 w1))"

definition addExecutionLog ::
  "env \<Rightarrow> string \<Rightarrow> string \<Rightarrow> agent_core \<Rightarrow> world \<Rightarrow> agent_core \<times> world" where
  "addExecutionLog e action result c w =
     (let (d, w1) = new_Date e w;
          cx = ag_context c
      in (c\<lparr>ag_context := cx\<lparr>ctx_executionLog := ctx_executionLog cx @ [(action, result, d)]\<rparr>\<rparr>,
          w1))"

text \<open>\<^verbatim>\<open>Monitor.reportEvent\<close>: a buffer of at most 100 events; the handler of an
  error event only prints.\<close>

definition reportEvent :: "IMonitorEvent \<Rightarrow> Monitor \<Rightarrow> Monitor" where
  "reportEvent ev m =
     (let h = mon_eventHistory m @ [ev]
      in m\<lparr>mon_eventHistory := (if length h > 100 then tl h else h)\<rparr>)"

text \<open>\<^verbatim>\<open>push\<close>, then one \<^verbatim>\<open>shift\<close> when more than 20 entries are held.\<close>

definition push_error :: "string \<Rightarrow> string list \<Rightarrow> string list" where
  "push_error err h = (let h1 = h @ [err] in if length h1 > 20 then tl h1 else h1)"

definition recordError :: "env \<Rightarrow> string \<Rightarrow> agent_core \<Rightarrow> world \<Rightarrow> agent_core \<times> world" where
  "recordError e err c w =
     (let n = Suc (ag_errorCount c);
          (d, w1) = new_Date e w;
          c1 = c\<lparr>ag_errorCount := n, ag_lastError := Some err,
                 ag_errorHistory := push_error err (ag_errorHistory c), ag_updatedAt := d\<rparr>;
          (c2, w2) =
            (case ag_monitor c1 of
               None \<Rightarrow> (c1, w1)
             | Some m \<Rightarrow>
                 (let (d2, w') = new_Date e w1;
                      ev = \<lparr>ev_type = ERROR_DETECTED, ev_agentId = ag_id c1, ev_timestamp = d2,
                            ev_details = [(''error'', JStr err), (''errorCount'', JNum (int n))]\<rparr>
                  in (c1\<lparr>ag_monitor := Some (reportEvent ev m)\<rparr>, w')))
      in (c2, saveState c2 w2))"

text \<open>\<^verbatim>\<open>Array.prototype.slice(start)\<close> with one argument: a negative start counts
  from the end, and \<^verbatim>\<open>-0\<close> is \<^verbatim>\<open>0\<close>.\<close>

definition js_slice_from :: "int \<Rightarrow> 'a list \<Rightarrow> 'a list" where
  "js_slice_from start xs =
     (let len = int (length xs);
          k = (if start < 0 then max (len + start) 0 else min start len)
      in drop (nat k) xs)"

text \<open>\<^verbatim>\<open>isInErrorLoop\<close> on the error history; the size of the \<^verbatim>\<open>Set\<close> is the
  number of distinct entries.\<close>

definition isInErrorLoop :: "int \<Rightarrow> string list \<Rightarrow> bool" where
  "isInErrorLoop threshold errorHistory =
     (if int (length errorHistory) < threshold then False
      else (let recentErrors = js_slice_from (- threshold) errorHistory
            in length (remdups recentErrors) = 1))"


section \<open>Strings\<close>

text \<open>\<^verbatim>\<open>Array.prototype.join\<close> on strings.\<close>

fun join_with :: "string \<Rightarrow> string list \<Rightarrow> string" where
  "join_with sep [] = []"
| "join_with sep [x] = x"
| "join_with sep (x # y # ys) = x @ sep @ join_with sep (y # ys)"

fun show_nat :: "nat \<Rightarrow> string" where
  "show_nat n =
     (if n < 10 then [''0123456789'' ! n]
      else show_nat (n div 10) @ [''0123456789'' ! (n mod 10)])"

definition show_int :: "int \<Rightarrow> string" where
  "show_int i = (if i < 0 then CHR ''-'' # show_nat (nat (- i)) else show_nat (nat i))"

text \<open>String conversion as a template literal performs it.\<close>

fun js_toString :: "jsval \<Rightarrow> string"
  and js_join :: "jsval list \<Rightarrow> string"
  where
  "js_toString JUndefined = ''undefined''"
| "js_toString JNull = ''null''"
| "js_toString (JBool b) = (if b then ''true'' else ''false'')"
| "js_toString (JNum n) = show_int n"
| "js_toString (JStr s) = s"
| "js_toString (JArr xs) = js_join xs"
| "js_toString (JObj kvs) = ''[object Object]''"
| "js_join [] = []"
| "js_join (v # vs) =
     (if v = JUndefined \<or> v = JNull then [] else js_toString v)
     @ (if vs = [] then [] else '','' @ js_join vs)"

section \<open>Agent: construction, initialisation, tree operations\<close>

text \<open>\<^verbatim>\<open>Map.prototype.set\<close>: an existing key keeps its place, a new key goes last.\<close>

fun map_set :: "'k \<Rightarrow> 'v \<Rightarrow> ('k \<times> 'v) list \<Rightarrow> ('k \<times> 'v) list" where
  "map_set k v [] = [(k, v)]"
| "map_set k v ((k', v') # kvs) =
     (if k = k' then (k, v) # kvs else (k', v') # map_set k v kvs)"

definition createEmptyContext :: IAgentContext where
  "createEmptyContext =
     \<lparr>ctx_conversationHistory = [],
      ctx_taskState = Some \<lparr>ts_currentTaskId = None, ts_taskHistory = [], ts_completedTasks = []\<rparr>,
      ctx_executionLog = [], ctx_customData = None\<rparr>"

text \<open>The object literal of the constructor: five defaults, then the spread of the
  argument.\<close>

definition with_defaults :: "IAgentConfig \<Rightarrow> IAgentConfig" where
  "with_defaults config =
     config\<lparr>cfg_maxRetries := spread_over (Val 3) (cfg_maxRetries config),
            cfg_timeout := spread_over (Val 300000) (cfg_timeout config),
            cfg_enableMonitor := spread_over (Val True) (cfg_enableMonitor config),
            cfg_description := spread_over (Val []) (cfg_description config),
            cfg_template := spread_over (Val ''ChildAgent'') (cfg_template config)\<rparr>"

text \<open>The constructor of \<^verbatim>\<open>Agent\<close>. \<^verbatim>\<open>uuidv4()\<close> is only called when the
  configured id is missing or empty.\<close>

definition new_Agent :: "env \<Rightarrow> IAgentConfig \<Rightarrow> world \<Rightarrow> agent \<times> world" where
  "new_Agent e config w =
     (let (i, w1) = (case cfg_id config of
                       Val s \<Rightarrow> (if s = [] then new_uuid e w else (s, w))
                     | _ \<Rightarrow> new_uuid e w);
          cfg = with_defaults config;
          (created, w2) = new_Date e w1;
          (updated, w3) = new_Date e w2
      in (Agent
           \<lparr>ag_id = i, ag_name = cfg_name config, ag_type = cfg_type config,
            ag_parentId = field_opt (cfg_parentId config), ag_createdAt = created,
            ag_status = IDLE, ag_currentTask = None,
            ag_description = str_or (cfg_description cfg) [],
            ag_template = str_or (cfg_template cfg) ''ChildAgent'',
            ag_context = createEmptyContext, ag_config = cfg,
            ag_monitor = (if cfg_enableMonitor cfg = Val True
                          then Some \<lparr>mon_isRunning = False, mon_eventHistory = []\<rparr> else None),
            ag_errorCount = 0, ag_lastError = None, ag_errorHistory = [],
            ag_updatedAt = updated, ag_agentMdContent = None\<rparr> [], w3))"

definition new_ChildAgent :: "env \<Rightarrow> IAgentConfig \<Rightarrow> world \<Rightarrow> agent \<times> world" where
  "new_ChildAgent e config w =
     new_Agent e (config\<lparr>cfg_type := CHILD,
                         cfg_template := Val (str_or (cfg_template config) ''ChildAgent'')\<rparr>) w"

definition new_RootAgent :: "env \<Rightarrow> IAgentConfig \<Rightarrow> world \<Rightarrow> agent \<times> world" where
  "new_RootAgent e config w =
     new_Agent e (config\<lparr>cfg_type := ROOT,
                         cfg_template := Val (str_or (cfg_template config) ''RootAgent'')\<rparr>) w"

definition Monitor_start :: "Monitor \<Rightarrow> Monitor" where
  "Monitor_start m = (if mon_isRunning m then m else m\<lparr>mon_isRunning := True\<rparr>)"

definition Monitor_stop :: "Monitor \<Rightarrow> Monitor" where
  "Monitor_stop m = m\<lparr>mon_isRunning := False\<rparr>"

definition Agent_initialize :: "env \<Rightarrow> agent_core \<Rightarrow> world \<Rightarrow> agent_core \<times> world" where
  "Agent_initialize e c w =
     (let (c1, w1) = updateStatus e IDLE c w;
          w2 = saveState c1 w1
      in (c1\<lparr>ag_monitor := map_option Monitor_start (ag_monitor c1)\<rparr>, w2))"

definition RootAgent_initialize :: "env \<Rightarrow> agent_core \<Rightarrow> world \<Rightarrow> agent_core \<times> world" where
  "RootAgent_initialize e c w =
     (let (c1, w1) = Agent_initialize e c w in updateStatus e IDLE c1 w1)"

text \<open>\<^verbatim>\<open>loadAgentMd\<close> throws when the template is missing or empty;
  \<^verbatim>\<open>ChildAgent.initialize\<close> catches that and only warns.\<close>

definition loadAgentMd :: "env \<Rightarrow> agent_core \<Rightarrow> thrown + (string \<times> agent_core)" where
  "loadAgentMd e c =
     (case storage_loadAgentMd e (ag_template c) of
        None \<Rightarrow> Inl (ErrorObj (''Agent template not found: '' @ ag_template c))
      | Some content \<Rightarrow>
          (if content = [] then Inl (ErrorObj (''Agent template not found: '' @ ag_template c))
           else Inr (content, c\<lparr>ag_agentMdContent := Some content\<rparr>)))"

definition ChildAgent_initialize :: "env \<Rightarrow> agent_core \<Rightarrow> world \<Rightarrow> agent_core \<times> world" where
  "ChildAgent_initialize e c w =
     (let (c1, w1) = Agent_initialize e c w;
          c2 = (case loadAgentMd e c1 of Inl err \<Rightarrow> c1 | Inr (content, c') \<Rightarrow> c')
      in updateStatus e IDLE c2 w1)"

definition reason_or_unknown :: "string option \<Rightarrow> string" where
  "reason_or_unknown reason =
     (case reason of None \<Rightarrow> ''unknown'' | Some r \<Rightarrow> (if r = [] then ''unknown'' else r))"

text \<open>\<^verbatim>\<open>terminate\<close>: the status first, then every child in map order, then the
  Monitor, then the state is saved.\<close>

fun terminate :: "env \<Rightarrow> string option \<Rightarrow> agent \<Rightarrow> world \<Rightarrow> agent \<times> world"
  and terminate_children ::
    "env \<Rightarrow> string \<Rightarrow> (string \<times> agent) list \<Rightarrow> world \<Rightarrow> (string \<times> agent) list \<times> world"
  where
  "terminate e reason (Agent c ch) w =
     (let w0 = w\<lparr>terminateLog := terminateLog w @ [(ag_id c, reason)]\<rparr>;
          (c1, w1) = updateStatus e TERMINATED c w0;
          (ch', w2) = terminate_children e
                        (''Parent agent '' @ ag_id c @ '' terminated: '' @ reason_or_unknown reason)
                        ch w1;
          c2 = c1\<lparr>ag_monitor := map_option Monitor_stop (ag_monitor c1)\<rparr>;
          (d, w3) = new_Date e w2;
          c3 = c2\<lparr>ag_updatedAt := d\<rparr>
      in (Agent c3 ch', saveState c3 w3))"
| "terminate_children e r [] w = ([], w)"
| "terminate_children e r ((k, a) # kvs) w =
     (let (a', w1) = terminate e (Some r) a w;
          (kvs', w2) = terminate_children e r kvs w1
      in ((k, a') # kvs', w2))"

fun getAllDescendants :: "agent \<Rightarrow> agent list" where
  "getAllDescendants (Agent c ch) =
     concat (map (\<lambda>(k, child). child # getAllDescendants child) ch)"

text \<open>\<^verbatim>\<open>addChild\<close>: the guard, the child configuration, the construction of a
  \<^verbatim>\<open>ChildAgent\<close>, the entry in the children map. The result is the error thrown or
  the child returned, with the node and the world as the call leaves them.\<close>

definition addChild ::
  "env \<Rightarrow> IAgentConfig \<Rightarrow> agent \<Rightarrow> world \<Rightarrow> (thrown + agent) \<times> agent \<times> world" where
  "addChild e config this w =
     (if ag_type (core this) \<noteq> ROOT \<and> length (children this) \<ge> 1
      then (Inl (ErrorObj ''Only root agent can have multiple children''), this, w)
      else
        (let childConfig = config\<lparr>cfg_parentId := Val (ag_id (core this)), cfg_type := CHILD\<rparr>;
             (child, w1) = new_ChildAgent e childConfig w;
             ch = map_set (ag_id (core child)) child (children this);
             (d, w2) = new_Date e w1;
             c1 = (core this)\<lparr>ag_updatedAt := d\<rparr>
         in (Inr child, Agent c1 ch, saveState c1 w2)))"

text \<open>\<^verbatim>\<open>removeChild\<close>. The call of the child's \<^verbatim>\<open>terminate\<close> is not awaited;
  it is taken here to run to its end at once.\<close>

definition removeChild :: "env \<Rightarrow> string \<Rightarrow> agent \<Rightarrow> world \<Rightarrow> bool \<times> agent \<times> world" where
  "removeChild e agentId this w =
     (case map_of (children this) agentId of
        None \<Rightarrow> (False, this, w)
      | Some child \<Rightarrow>
          (let (child1, w1) = terminate e (Some ''Removed by parent'') child w;
               ch = filter (\<lambda>(k, a). k \<noteq> agentId) (children this);
               (d, w2) = new_Date e w1;
               c1 = (core this)\<lparr>ag_updatedAt := d\<rparr>
           in (True, Agent c1 ch, saveState c1 w2)))"

definition addConversationEntry ::
  "env \<Rightarrow> string \<Rightarrow> string \<Rightarrow> agent_core \<Rightarrow> world \<Rightarrow> agent_core \<times> world" where
  "addConversationEntry e role content c w =
     (let (d, w1) = new_Date e w;
          cx = ag_context c
      in (c\<lparr>ag_context := cx\<lparr>ctx_conversationHistory :=
               ctx_conversationHistory cx @ [(role, content, d)]\<rparr>\<rparr>, w1))"

text \<open>\<^verbatim>\<open>recreate\<close>: the result is the new node, the old node as left behind, and the
  world.\<close>

definition recreate :: "env \<Rightarrow> agent \<Rightarrow> world \<Rightarrow> agent \<times> agent \<times> world" where
  "recreate e this w =
     (let (old, w1) = terminate e (Some ''Recreating due to error loop'') this w;
          (u, w2) = new_uuid e w1;
          newConfig = (ag_config (core old))\<lparr>cfg_id := Val u, cfg_enableMonitor := Val True\<rparr>
      in if ag_type (core old) = ROOT
         then (let (n, w3) = new_RootAgent e newConfig w2;
                   (c, w4) = RootAgent_initialize e (core n) w3
               in (Agent c (children n), old, w4))
         else (let (n, w3) = new_ChildAgent e newConfig w2;
                   (c, w4) = ChildAgent_initialize e (core n) w3
               in (Agent c (children n), old, w4)))"

text \<open>The part of a stored state that \<^verbatim>\<open>loadState\<close> reads, and the spread of its
  configuration over the node's own.\<close>

record IAgentState =
  ias_description :: string
  ias_context :: IAgentContext
  ias_template :: string
  ias_status :: AgentStatus
  ias_currentTask :: "ITask option"
  ias_errorCount :: nat
  ias_errorHistory :: "string list"
  ias_lastError :: "string option"
  ias_config :: IAgentConfig

definition spread_config :: "IAgentConfig \<Rightarrow> IAgentConfig \<Rightarrow> IAgentConfig" where
  "spread_config base over =
     \<lparr>cfg_id = spread_over (cfg_id base) (cfg_id over),
      cfg_name = cfg_name over,
      cfg_type = cfg_type over,
      cfg_parentId = spread_over (cfg_parentId base) (cfg_parentId over),
      cfg_agentMdPath = spread_over (cfg_agentMdPath base) (cfg_agentMdPath over),
      cfg_maxRetries = spread_over (cfg_maxRetries base) (cfg_maxRetries over),
      cfg_timeout = spread_over (cfg_timeout base) (cfg_timeout over),
      cfg_enableMonitor = spread_over (cfg_enableMonitor base) (cfg_enableMonitor over),
      cfg_description = spread_over (cfg_description base) (cfg_description over),
      cfg_template = spread_over (cfg_template base) (cfg_template over)\<rparr>"

definition loadState :: "env \<Rightarrow> IAgentState \<Rightarrow> agent_core \<Rightarrow> world \<Rightarrow> agent_core \<times> world" where
  "loadState e state c w =
     (let (d, w1) = new_Date e w;
          c1 = c\<lparr>ag_description := ias_description state,
                 ag_context := ias_context state,
                 ag_template := ias_template state,
                 ag_status := ias_status state,
                 ag_currentTask := ias_currentTask state,
                 ag_errorCount := ias_errorCount state,
                 ag_errorHistory := ias_errorHistory state,
                 ag_lastError := ias_lastError state,
                 ag_config := spread_config (ag_config c) (ias_config state),
                 ag_updatedAt := d\<rparr>
      in (c1, saveState c1 w1))"


section \<open>ChildAgent: the worker\<close>

definition parent_present :: "agent_core \<Rightarrow> bool" where
  "parent_present c = (case ag_parentId c of None \<Rightarrow> False | Some p \<Rightarrow> p \<noteq> [])"

text \<open>\<^verbatim>\<open>Agent.reportResult\<close> saves the state and, when there is a parent, writes the
  child-result record under a key made of both ids (\<^verbatim>\<open>notifyParent\<close>).\<close>

definition reportResult ::
  "env \<Rightarrow> ITaskResult \<Rightarrow> agent_core \<Rightarrow> world \<Rightarrow> agent_core \<times> world" where
  "reportResult e result c w =
     (let (d, w1) = new_Date e w;
          c1 = c\<lparr>ag_updatedAt := d\<rparr>;
          w2 = saveState c1 w1
      in case ag_parentId c1 of
           None \<Rightarrow> (c1, w2)
         | Some p \<Rightarrow>
             (if p = [] then (c1, w2)
              else (let (reportedAt, w3) = new_Date e w2
                    in (c1, w3\<lparr>storageLog := storageLog w3 @
                          [\<lparr>sw_key = p @ ''_child_result_'' @ ag_id c1,
                            sw_status = ag_status c1, sw_result = Some result\<rparr>]\<rparr>))))"

definition reportToParent ::
  "env \<Rightarrow> ITaskResult \<Rightarrow> agent_core \<Rightarrow> world \<Rightarrow> agent_core \<times> world" where
  "reportToParent e result c w =
     (case ag_parentId c of
        None \<Rightarrow> (c, w)
      | Some p \<Rightarrow>
          (if p = [] then (c, w)
           else (let (c1, w1) = addExecutionLog e ''report_to_parent''
                                  (''Reporting result to parent '' @ p) c w
                 in reportResult e result c1 w1)))"

definition validateTaskContext :: "ITask \<Rightarrow> bool" where
  "validateTaskContext task =
     (if \<not> truthy (js_get (task_context task) ''instruction'') \<and> task_description task = []
      then False else True)"

text \<open>The two basic test cases, each with the value its \<^verbatim>\<open>validate\<close> returns.\<close>

definition extractTestCases :: "agent_core \<Rightarrow> (string \<times> bool) list" where
  "extractTestCases c =
     [(''basic_validation'', ag_currentTask c \<noteq> None),
      (''status_check'', ag_status c = RUNNING)]"

definition fallbackSelfTest :: "agent_core \<Rightarrow> bool" where
  "fallbackSelfTest c =
     (if ag_currentTask c = None then False else list_all snd (extractTestCases c))"

definition lastOutput :: "agent_core \<Rightarrow> string" where
  "lastOutput c =
     (case filter (\<lambda>(action, result, d). action = ''task_executed'')
             (ctx_executionLog (ag_context c)) of
        [] \<Rightarrow> []
      | x # xs \<Rightarrow> fst (snd (last (x # xs))))"

text \<open>The \<^verbatim>\<open>try\<close> block of \<^verbatim>\<open>selfTest\<close>: the only call in it that can fail is
  the one to the reasoning service. A block returns what it threw or produced, together
  with the state it left.\<close>

definition selfTest_try ::
  "env \<Rightarrow> ITask \<Rightarrow> agent_core \<Rightarrow> world \<Rightarrow> (thrown + bool) \<times> agent_core \<times> world" where
  "selfTest_try e t c w =
     (let n = oracleCalls w;
          w1 = w\<lparr>oracleCalls := Suc n\<rparr>
      in case llm_selfTest e n (task_description t) (lastOutput c) of
           Throws err \<Rightarrow> (Inl err, c, w1)
         | Returns testResult \<Rightarrow>
             (let (c1, w2) = addExecutionLog e
                    (if st_passed testResult then ''self_test_passed'' else ''self_test_failed'')
                    (st_feedback testResult) c w1
              in (Inr (st_passed testResult), c1, w2)))"

definition selfTest :: "env \<Rightarrow> agent_core \<Rightarrow> world \<Rightarrow> (thrown + bool) \<times> agent_core \<times> world" where
  "selfTest e c w =
     (case ag_currentTask c of
        None \<Rightarrow> (Inr False, c, w)
      | Some t \<Rightarrow>
          (case selfTest_try e t c w of
             (Inr passed, c1, w1) \<Rightarrow> (Inr passed, c1, w1)
           | (Inl err, c1, w1) \<Rightarrow>
               (let (c2, w2) = addExecutionLog e ''self_test_error''
                                 (''Self-test error: '' @ thrown_toString err) c1 w1
                in (Inr (fallbackSelfTest c2), c2, w2))))"

definition performTask ::
  "env \<Rightarrow> ITask \<Rightarrow> agent_core \<Rightarrow> world \<Rightarrow> (thrown + jsval) \<times> agent_core \<times> world" where
  "performTask e task c w =
     (let i = js_get (task_context task) ''instruction'';
          instruction = (if truthy i then i else JStr (task_description task));
          (c1, w1) = addExecutionLog e ''perform_task''
                       (''Performing: '' @ js_toString instruction) c w;
          n = oracleCalls w1;
          w2 = w1\<lparr>oracleCalls := Suc n\<rparr>
      in case llm_executeTask e n instruction (task_context task) of
           Returns result \<Rightarrow>
             (let (executedAt, w3) = new_Date e w2;
                  output = JObj
                    [(''agentId'', JStr (ag_id c1)), (''taskId'', JStr (task_id task)),
                     (''instruction'', instruction), (''executedAt'', JNum (int executedAt)),
                     (''llmResult'', JObj
                        [(''success'', JBool (ex_success result)),
                         (''output'', JStr (ex_output result)),
                         (''reasoning'', (case ex_reasoning result of
                                            None \<Rightarrow> JUndefined | Some r \<Rightarrow> JStr r))])];
                  (c2, w4) = addExecutionLog e ''task_executed'' (ex_output result) c1 w3
              in (Inr output, c2, w4))
         | Throws err \<Rightarrow>
             (let (c2, w3) = addExecutionLog e ''task_error''
                               (''Error: '' @ thrown_toString err) c1 w2
              in (Inl err, c2, w3)))"

text \<open>The \<^verbatim>\<open>try\<close> block of \<^verbatim>\<open>ChildAgent.executeTask\<close>.\<close>

definition executeTask_try ::
  "env \<Rightarrow> ITask \<Rightarrow> agent_core \<Rightarrow> world \<Rightarrow> (thrown + ITaskResult) \<times> agent_core \<times> world" where
  "executeTask_try e task c w =
     (if \<not> validateTaskContext task
      then (Inl (ErrorObj ''Invalid task context: missing required instruction''), c, w)
      else
        (case performTask e task c w of
           (Inl err, c1, w1) \<Rightarrow> (Inl err, c1, w1)
         | (Inr executionResult, c1, w1) \<Rightarrow>
             (let (c2, w2) = addExecutionLog e ''self_test''
                               ''Running self-test with LLM...'' c1 w1
              in case selfTest e c2 w2 of
                   (Inl err, c3, w3) \<Rightarrow> (Inl err, c3, w3)
                 | (Inr selfTestPassed, c3, w3) \<Rightarrow>
                     (if \<not> selfTestPassed then (Inl (ErrorObj ''Self-test failed''), c3, w3)
                      else
                        (let (c4, w4) = addExecutionLog e ''self_test_passed''
                                          ''Self-test passed'' c3 w3;
                             (d, w5) = new_Date e w4;
                             result = \<lparr>res_taskId = task_id task, res_success = True,
                                       res_output = executionResult, res_error = None,
                                       res_completedAt = d, res_selfTestPassed = Some True\<rparr>;
                             (c5, w6) = updateStatus e COMPLETED c4 w5;
                             (c6, w7) = reportResult e result c5 w6;
                             (c7, w8) = reportToParent e result c6 w7
                         in (Inr result, c7, w8))))))"

text \<open>The \<^verbatim>\<open>catch\<close> block of \<^verbatim>\<open>ChildAgent.executeTask\<close>.\<close>

definition executeTask_catch ::
  "env \<Rightarrow> ITask \<Rightarrow> thrown \<Rightarrow> agent_core \<Rightarrow> world \<Rightarrow> ITaskResult \<times> agent_core \<times> world" where
  "executeTask_catch e task err c w =
     (let errorMessage = error_message err;
          (c1, w1) = addExecutionLog e ''error'' (''Error: '' @ errorMessage) c w;
          (c2, w2) = recordError e errorMessage c1 w1;
          (c3, w3) = (if isInErrorLoop 3 (ag_errorHistory c2)
                      then updateStatus e ERROR_LOOP c2 w2
                      else updateStatus e FAILED c2 w2);
          (d, w4) = new_Date e w3;
          result = \<lparr>res_taskId = task_id task, res_success = False, res_output = JUndefined,
                    res_error = Some errorMessage, res_completedAt = d,
                    res_selfTestPassed = Some False\<rparr>;
          (c4, w5) = reportResult e result c3 w4;
          (c5, w6) = reportToParent e result c4 w5
      in (result, c5, w6))"

definition ChildAgent_executeTask ::
  "env \<Rightarrow> ITask \<Rightarrow> agent_core \<Rightarrow> world \<Rightarrow> (thrown + ITaskResult) \<times> agent_core \<times> world" where
  "ChildAgent_executeTask e task c w =
     (let (c1, w1) = updateStatus e RUNNING c w;
          c2 = c1\<lparr>ag_currentTask := Some task\<rparr>;
          (c3, w3) = addExecutionLog e ''task_start''
                       (''Starting task: '' @ task_description task) c2 w1
      in case executeTask_try e task c3 w3 of
           (Inr result, c4, w4) \<Rightarrow> (Inr result, c4, w4)
         | (Inl err, c4, w4) \<Rightarrow>
             (let (result, c5, w5) = executeTask_catch e task err c4 w4
              in (Inr result, c5, w5)))"


section \<open>RootAgent: the coordinator\<close>

definition available :: "agent \<Rightarrow> bool" where
  "available a = (ag_status (core a) = IDLE \<or> ag_status (core a) = COMPLETED)"

definition findAvailableChild :: "agent \<Rightarrow> (string \<times> agent) option" where
  "findAvailableChild this = find (\<lambda>(k, a). available a) (children this)"

text \<open>The loop of \<^verbatim>\<open>decomposeTask\<close>, from index \<open>i\<close> on; \<open>n\<close> is the number of
  descriptions.\<close>

fun decompose_from ::
  "env \<Rightarrow> ITask \<Rightarrow> nat \<Rightarrow> nat \<Rightarrow> string list \<Rightarrow> world \<Rightarrow> ITask list \<times> world" where
  "decompose_from e task n i [] w = ([], w)"
| "decompose_from e task n i (d # ds) w =
     (let (u, w1) = new_uuid e w;
          (created, w2) = new_Date e w1;
          subTask = \<lparr>task_id = u, task_description = d,
                     task_context = Some
                       [(''parentTaskId'', JStr (task_id task)),
                        (''step'', JNum (int i + 1)),
                        (''totalSteps'', JNum (int n)),
                        (''originalContext'',
                           (case task_context task of None \<Rightarrow> JUndefined | Some original \<Rightarrow> JObj original))],
                     task_parentTaskId = Some (task_id task),
                     task_createdAt = created, task_deadline = None\<rparr>;
          (rest, w3) = decompose_from e task n (Suc i) ds w2
      in (subTask # rest, w3))"

definition decomposeTask :: "env \<Rightarrow> ITask \<Rightarrow> world \<Rightarrow> ITask list \<times> world" where
  "decomposeTask e task w =
     (let descriptions = analyzeTaskDescription e (task_description task)
      in decompose_from e task (length descriptions) 0 descriptions w)"

text \<open>The task object that \<^verbatim>\<open>dispatchTask\<close> builds for the worker.\<close>

definition isolatedTask :: "ITask \<Rightarrow> ITask" where
  "isolatedTask subTask =
     subTask\<lparr>task_context := Some
       [(''instruction'', JStr (task_description subTask)),
        (''step'', js_get (task_context subTask) ''step''),
        (''totalSteps'', js_get (task_context subTask) ''totalSteps'')]\<rparr>"

text \<open>\<^verbatim>\<open>dispatchTask\<close>. The target is named by its key in the children map, where
  \<^verbatim>\<open>executeTask\<close> has put it; the worker object is changed in place, so its entry
  is. The children of a coordinator are \<^verbatim>\<open>ChildAgent\<close>s: \<^verbatim>\<open>addChild\<close> and
  \<^verbatim>\<open>recreate\<close> construct nothing else for them.\<close>

definition dispatchTask ::
  "env \<Rightarrow> ITask \<Rightarrow> string option \<Rightarrow> agent \<Rightarrow> world \<Rightarrow> (thrown + ITaskResult) \<times> agent \<times> world"
  where
  "dispatchTask e subTask targetAgent this w =
     (let agent = (case targetAgent of
                     Some k \<Rightarrow> map_option (\<lambda>a. (k, a)) (map_of (children this) k)
                   | None \<Rightarrow> findAvailableChild this)
      in case agent of
           None \<Rightarrow> (Inl (ErrorObj ''No available child agent found''), this, w)
         | Some (k, a) \<Rightarrow>
             (let (r, c1, w1) = ChildAgent_executeTask e (isolatedTask subTask) (core a) w
              in (r, Agent (core this) (map_set k (Agent c1 (children a)) (children this)), w1)))"

definition truthy_error :: "ITaskResult \<Rightarrow> string option" where
  "truthy_error r =
     (case res_error r of None \<Rightarrow> None | Some s \<Rightarrow> (if s = [] then None else Some s))"

definition aggregateResults ::
  "env \<Rightarrow> ITaskResult list \<Rightarrow> agent_core \<Rightarrow> world \<Rightarrow> ITaskResult \<times> world" where
  "aggregateResults e results c w =
     (let allSuccess = list_all res_success results;
          allSelfTestPassed = list_all (\<lambda>r. res_selfTestPassed r = Some True) results;
          outputs = map res_output (filter (\<lambda>r. truthy (res_output r)) results);
          errors = List.map_filter truthy_error results;
          (d, w1) = new_Date e w
      in (\<lparr>res_taskId = (case ag_currentTask c of
                            None \<Rightarrow> ''unknown''
                          | Some t \<Rightarrow> (if task_id t = [] then ''unknown'' else task_id t)),
           res_success = (allSuccess \<and> allSelfTestPassed),
           res_output = JObj
             [(''aggregated'', JBool True),
              (''subTaskCount'', JNum (int (length results))),
              (''successCount'', JNum (int (length (filter res_success results)))),
              (''selfTestPassedCount'',
                 JNum (int (length (filter (\<lambda>r. res_selfTestPassed r = Some True) results)))),
              (''outputs'', JArr outputs),
              (''errors'', JArr (map JStr errors))],
           res_error = (if length errors > 0 then Some (join_with ''; '' errors) else None),
           res_completedAt = d,
           res_selfTestPassed = Some allSelfTestPassed\<rparr>, w1))"

text \<open>The configuration \<^verbatim>\<open>executeTask\<close> gives to a worker it creates.\<close>

definition childConfig_for :: "agent \<Rightarrow> IAgentConfig" where
  "childConfig_for this =
     \<lparr>cfg_id = Absent,
      cfg_name = ''child-agent-'' @ show_nat (length (children this) + 1),
      cfg_type = CHILD, cfg_parentId = Absent, cfg_agentMdPath = Absent,
      cfg_maxRetries = Val 3, cfg_timeout = Val 120000, cfg_enableMonitor = Absent,
      cfg_description = Absent, cfg_template = Val ''ChildAgent''\<rparr>"

text \<open>Choosing the worker for a subtask: an available child, or a new one that is added
  and initialised. The result is the worker's key.\<close>

definition acquire_worker ::
  "env \<Rightarrow> agent \<Rightarrow> world \<Rightarrow> (thrown + string) \<times> agent \<times> world" where
  "acquire_worker e this w =
     (case findAvailableChild this of
        Some (k, a) \<Rightarrow> (Inr k, this, w)
      | None \<Rightarrow>
          (case addChild e (childConfig_for this) this w of
             (Inl err, this1, w1) \<Rightarrow> (Inl err, this1, w1)
           | (Inr child, this1, w1) \<Rightarrow>
               (let (c, w2) = ChildAgent_initialize e (core child) w1;
                    k = ag_id (core child)
                in (Inr k, Agent (core this1)
                             (map_set k (Agent c (children child)) (children this1)), w2))))"

text \<open>The rebuild-and-retry step after a dispatch to the worker with key \<open>k\<close> gave
  \<open>result\<close>; \<open>results\<close> already ends with \<open>result\<close>. The worker object is the
  entry under \<open>k\<close>, which a dispatch to \<open>k\<close> always leaves in the map; the branch
  for a missing entry only makes the function total.\<close>

definition retry_if_error_loop ::
  "env \<Rightarrow> ITask \<Rightarrow> string \<Rightarrow> ITaskResult \<Rightarrow> ITaskResult list \<Rightarrow> agent \<Rightarrow> world
    \<Rightarrow> (thrown + ITaskResult list) \<times> agent \<times> world" where
  "retry_if_error_loop e subTask k result results this w =
     (case map_of (children this) k of
        None \<Rightarrow> (Inr results, this, w)
      | Some targetAgent \<Rightarrow>
          (if \<not> res_success result \<and> ag_status (core targetAgent) = ERROR_LOOP
           then
             (let (newAgent, old, w1) = recreate e targetAgent w;
                  newId = ag_id (core newAgent);
                  this1 = Agent (core this)
                            (map_set newId newAgent (map_set k old (children this)))
              in case dispatchTask e subTask (Some newId) this1 w1 of
                   (Inl err, this2, w2) \<Rightarrow> (Inl err, this2, w2)
                 | (Inr retryResult, this2, w2) \<Rightarrow>
                     (Inr (results[length results - 1 := retryResult]), this2, w2))
           else (Inr results, this, w)))"

text \<open>One round of the loop over the subtasks.\<close>

definition process_subTask ::
  "env \<Rightarrow> ITask \<Rightarrow> ITaskResult list \<Rightarrow> agent \<Rightarrow> world
    \<Rightarrow> (thrown + ITaskResult list) \<times> agent \<times> world" where
  "process_subTask e subTask subTaskResults this w =
     (case acquire_worker e this w of
        (Inl err, this1, w1) \<Rightarrow> (Inl err, this1, w1)
      | (Inr k, this1, w1) \<Rightarrow>
          (case dispatchTask e subTask (Some k) this1 w1 of
             (Inl err, this2, w2) \<Rightarrow> (Inl err, this2, w2)
           | (Inr result, this2, w2) \<Rightarrow>
               retry_if_error_loop e subTask k result (subTaskResults @ [result]) this2 w2))"

fun process_subTasks ::
  "env \<Rightarrow> ITask list \<Rightarrow> ITaskResult list \<Rightarrow> agent \<Rightarrow> world
    \<Rightarrow> (thrown + ITaskResult list) \<times> agent \<times> world" where
  "process_subTasks e [] subTaskResults this w = (Inr subTaskResults, this, w)"
| "process_subTasks e (subTask # rest) subTaskResults this w =
     (case process_subTask e subTask subTaskResults this w of
        (Inl err, this1, w1) \<Rightarrow> (Inl err, this1, w1)
      | (Inr results1, this1, w1) \<Rightarrow> process_subTasks e rest results1 this1 w1)"

text \<open>The \<^verbatim>\<open>try\<close> and \<^verbatim>\<open>catch\<close> blocks of \<^verbatim>\<open>RootAgent.executeTask\<close>.\<close>

definition RootAgent_try ::
  "env \<Rightarrow> ITask \<Rightarrow> agent \<Rightarrow> world \<Rightarrow> (thrown + ITaskResult) \<times> agent \<times> world" where
  "RootAgent_try e task this w =
     (let (subTasks, w1) = decomposeTask e task w
      in case process_subTasks e subTasks [] this w1 of
           (Inl err, this1, w2) \<Rightarrow> (Inl err, this1, w2)
         | (Inr subTaskResults, this1, w2) \<Rightarrow>
             (let (finalResult, w3) = aggregateResults e subTaskResults (core this1) w2;
                  (c1, w4) = updateStatus e COMPLETED (core this1) w3;
                  (c2, w5) = reportResult e finalResult c1 w4
              in (Inr finalResult, Agent c2 (children this1), w5)))"

definition RootAgent_catch ::
  "env \<Rightarrow> ITask \<Rightarrow> thrown \<Rightarrow> agent \<Rightarrow> world \<Rightarrow> ITaskResult \<times> agent \<times> world" where
  "RootAgent_catch e task err this w =
     (let (d, w1) = new_Date e w;
          errorResult = \<lparr>res_taskId = task_id task, res_success = False,
                         res_output = JUndefined, res_error = Some (error_message err),
                         res_completedAt = d, res_selfTestPassed = None\<rparr>;
          (c1, w2) = updateStatus e FAILED (core this) w1;
          (c2, w3) = recordError e (error_message err) c1 w2;
          (c3, w4) = reportResult e errorResult c2 w3
      in (errorResult, Agent c3 (children this), w4))"

definition RootAgent_executeTask ::
  "env \<Rightarrow> ITask \<Rightarrow> agent \<Rightarrow> world \<Rightarrow> (thrown + ITaskResult) \<times> agent \<times> world" where
  "RootAgent_executeTask e task this w =
     (let (c1, w1) = updateStatus e RUNNING (core this) w;
          this1 = Agent (c1\<lparr>ag_currentTask := Some task\<rparr>) (children this)
      in case RootAgent_try e task this1 w1 of
           (Inr result, this2, w2) \<Rightarrow> (Inr result, this2, w2)
         | (Inl err, this2, w2) \<Rightarrow>
             (let (result, this3, w3) = RootAgent_catch e task err this2 w2
              in (Inr result, this3, w3)))"

section \<open>Reference statements, auxiliary notions and concrete inputs\<close>

text \<open>The error-loop condition in the words of the specification: the history holds at
  least \<open>threshold\<close> entries, and the trailing \<open>threshold\<close> entries are all the same
  text; older entries play no part.\<close>

definition error_loop_spec :: "int \<Rightarrow> string list \<Rightarrow> bool" where
  "error_loop_spec threshold errorHistory =
     (threshold \<le> int (length errorHistory) \<and>
      (let trailing = drop (length errorHistory - nat threshold) errorHistory
       in list_all (\<lambda>x. list_all (\<lambda>y. x = y) trailing) trailing))"

text \<open>Property read on a value: \<^verbatim>\<open>value.key\<close>.\<close>

definition js_field :: "jsval \<Rightarrow> string \<Rightarrow> jsval" where
  "js_field v k = (case v of JObj kvs \<Rightarrow> js_get (Some kvs) k | _ \<Rightarrow> JUndefined)"

text \<open>The aggregated error in the words of the specification: the individual error
  strings joined by a semicolon, absent when there are none.\<close>

definition aggregate_error_spec :: "ITaskResult list \<Rightarrow> string option" where
  "aggregate_error_spec results =
     (let errors = List.map_filter res_error results
      in if errors = [] then None else Some (join_with '';'' errors))"

text \<open>A subtask whose context carries the given value under \<^verbatim>\<open>originalContext\<close>.\<close>

definition with_originalContext :: "jsval \<Rightarrow> ITask \<Rightarrow> ITask" where
  "with_originalContext v subTask =
     subTask\<lparr>task_context := Some (map_set ''originalContext'' v
        (case task_context subTask of None \<Rightarrow> [] | Some kvs \<Rightarrow> kvs))\<rparr>"

text \<open>Concrete surroundings: numbered ids, a running clock, a reasoning service that
  executes every instruction and lets the self-test pass from its seventh call on, a
  one-step analysis, and an empty template store.\<close>

definition example_env :: env where
  "example_env =
     \<lparr>uuidv4 = (\<lambda>n. ''uuid-'' @ show_nat n),
      date = (\<lambda>n. 1000 + n),
      llm_executeTask = (\<lambda>n instruction ctx.
         Returns \<lparr>ex_success = True, ex_output = ''done'', ex_reasoning = None\<rparr>),
      llm_selfTest = (\<lambda>n description output.
         Returns \<lparr>st_passed = (6 \<le> n), st_feedback = ''checked''\<rparr>),
      analyzeTaskDescription = (\<lambda>d. [''step one'']),
      storage_loadAgentMd = (\<lambda>t. None)\<rparr>"

definition example_world :: world where
  "example_world =
     \<lparr>uuidReads = 0, dateReads = 0, oracleCalls = 0, storageLog = [], terminateLog = []\<rparr>"

definition example_config :: "string \<Rightarrow> AgentType \<Rightarrow> IAgentConfig" where
  "example_config name type =
     \<lparr>cfg_id = Absent, cfg_name = name, cfg_type = type, cfg_parentId = Absent,
      cfg_agentMdPath = Absent, cfg_maxRetries = Absent, cfg_timeout = Absent,
      cfg_enableMonitor = Absent, cfg_description = Absent, cfg_template = Absent\<rparr>"

definition example_result :: "string \<Rightarrow> bool \<Rightarrow> bool \<Rightarrow> string option \<Rightarrow> ITaskResult" where
  "example_result tid ok tested err =
     \<lparr>res_taskId = tid, res_success = ok, res_output = JUndefined, res_error = err,
      res_completedAt = 0, res_selfTestPassed = Some tested\<rparr>"

definition example_task :: "string \<Rightarrow> string \<Rightarrow> ITask" where
  "example_task tid description =
     \<lparr>task_id = tid, task_description = description, task_context = None,
      task_parentTaskId = None, task_createdAt = 0, task_deadline = None\<rparr>"

definition example_worker :: agent_core where
  "example_worker =
     core (fst (new_ChildAgent example_env
       ((example_config ''worker'' CHILD)\<lparr>cfg_parentId := Val ''root''\<rparr>) example_world))"


text \<open>Two states of a node that differ at most in the context (the logs), and two worlds
  that differ at most in the number of readings taken.\<close>

definition only_log_changed :: "agent_core \<Rightarrow> agent_core \<Rightarrow> bool" where
  "only_log_changed c c' = (c' = c\<lparr>ag_context := ag_context c'\<rparr>)"

definition only_reads :: "world \<Rightarrow> world \<Rightarrow> bool" where
  "only_reads w w' = (w' = w\<lparr>dateReads := dateReads w', oracleCalls := oracleCalls w'\<rparr>)"

text \<open>The record \<^verbatim>\<open>saveState\<close> writes for a node, and the record
  \<^verbatim>\<open>notifyParent\<close> writes for a node and a result.\<close>

definition state_record :: "agent_core \<Rightarrow> state_write" where
  "state_record c = \<lparr>sw_key = ag_id c, sw_status = ag_status c, sw_result = None\<rparr>"

definition child_result_record :: "agent_core \<Rightarrow> ITaskResult \<Rightarrow> state_write" where
  "child_result_record c result =
     \<lparr>sw_key = the (ag_parentId c) @ ''_child_result_'' @ ag_id c,
      sw_status = ag_status c, sw_result = Some result\<rparr>"

text \<open>A coordinator with one worker, as \<^verbatim>\<open>addChild\<close> and the worker's
  \<^verbatim>\<open>initialize\<close> leave them.\<close>

definition example_root :: agent where
  "example_root =
     (let (r, w1) = new_RootAgent example_env (example_config ''root'' ROOT) example_world;
          (x, r1, w2) = addChild example_env (example_config ''worker'' CHILD) r w1
      in case x of
           Inl err \<Rightarrow> r1
         | Inr child \<Rightarrow>
             Agent (core r1)
               (map_set (ag_id (core child))
                  (Agent (fst (ChildAgent_initialize example_env (core child) w2)) [])
                  (children r1)))"

text \<open>A tree of nodes with every \<^verbatim>\<open>updatedAt\<close> set to zero, the tree a terminated
  tree has up to \<^verbatim>\<open>updatedAt\<close>, and the invocations of \<^verbatim>\<open>terminate\<close> that one
  invocation makes, in order, each with its receiver and its reason.\<close>

fun forget_updatedAt :: "agent \<Rightarrow> agent" where
  "forget_updatedAt (Agent c ch) =
     Agent (c\<lparr>ag_updatedAt := 0\<rparr>) (map (\<lambda>(k, a). (k, forget_updatedAt a)) ch)"

fun terminated_shape :: "agent \<Rightarrow> agent" where
  "terminated_shape (Agent c ch) =
     Agent (c\<lparr>ag_status := TERMINATED, ag_monitor := map_option Monitor_stop (ag_monitor c),
              ag_updatedAt := 0\<rparr>)
       (map (\<lambda>(k, a). (k, terminated_shape a)) ch)"

fun terminate_calls :: "string option \<Rightarrow> agent \<Rightarrow> (string \<times> string option) list" where
  "terminate_calls reason (Agent c ch) =
     (ag_id c, reason) #
     concat (map (\<lambda>(k, a). terminate_calls
        (Some (''Parent agent '' @ ag_id c @ '' terminated: '' @ reason_or_unknown reason)) a) ch)"

text \<open>A sequence of \<^verbatim>\<open>recordError\<close> calls on one node.\<close>

fun recordErrors :: "env \<Rightarrow> string list \<Rightarrow> agent_core \<Rightarrow> world \<Rightarrow> agent_core \<times> world" where
  "recordErrors e [] c w = (c, w)"
| "recordErrors e (err # errs) c w =
     (let (c1, w1) = recordError e err c w in recordErrors e errs c1 w1)"

text \<open>The operations of a node as calls, and the node and world a call leaves. A call
  goes to the method of the node's class: \<^verbatim>\<open>initialize\<close> and \<^verbatim>\<open>executeTask\<close>
  are those of \<^verbatim>\<open>RootAgent\<close> for a root node and of \<^verbatim>\<open>ChildAgent\<close> otherwise,
  \<^verbatim>\<open>dispatchTask\<close> exists on a root node only, \<^verbatim>\<open>selfTest\<close> and
  \<^verbatim>\<open>reportToParent\<close> on the others. For \<^verbatim>\<open>recreate\<close> the node left is the old
  one. Left out are \<^verbatim>\<open>updateTaskState\<close> and \<^verbatim>\<open>setCustomData\<close>, which write
  context fields only, and \<^verbatim>\<open>decomposeTask\<close>, \<^verbatim>\<open>aggregateResults\<close> and the
  getters, which leave the node as it is.\<close>

datatype node_op =
    OpInitialize
  | OpExecuteTask ITask
  | OpTerminate "string option"
  | OpAddChild IAgentConfig
  | OpRemoveChild string
  | OpUpdateStatus AgentStatus
  | OpReportResult ITaskResult
  | OpLoadState IAgentState
  | OpAddConversationEntry string string
  | OpAddExecutionLog string string
  | OpRecordError string
  | OpRecreate
  | OpDispatchTask ITask "string option"
  | OpSelfTest
  | OpReportToParent ITaskResult
  | OpLoadAgentMd

definition on_core ::
  "(agent_core \<Rightarrow> world \<Rightarrow> agent_core \<times> world) \<Rightarrow> agent \<Rightarrow> world \<Rightarrow> agent \<times> world" where
  "on_core f this w = (let (c, w1) = f (core this) w in (Agent c (children this), w1))"

fun apply_op :: "env \<Rightarrow> node_op \<Rightarrow> agent \<Rightarrow> world \<Rightarrow> agent \<times> world" where
  "apply_op e OpInitialize this w =
     (if ag_type (core this) = ROOT then on_core (RootAgent_initialize e) this w
      else on_core (ChildAgent_initialize e) this w)"
| "apply_op e (OpExecuteTask task) this w =
     (if ag_type (core this) = ROOT then snd (RootAgent_executeTask e task this w)
      else on_core (\<lambda>c w. snd (ChildAgent_executeTask e task c w)) this w)"
| "apply_op e (OpTerminate reason) this w = terminate e reason this w"
| "apply_op e (OpAddChild config) this w = snd (addChild e config this w)"
| "apply_op e (OpRemoveChild agentId) this w = snd (removeChild e agentId this w)"
| "apply_op e (OpUpdateStatus status) this w = on_core (updateStatus e status) this w"
| "apply_op e (OpReportResult result) this w = on_core (reportResult e result) this w"
| "apply_op e (OpLoadState state) this w = on_core (loadState e state) this w"
| "apply_op e (OpAddConversationEntry role content) this w =
     on_core (addConversationEntry e role content) this w"
| "apply_op e (OpAddExecutionLog action result) this w =
     on_core (addExecutionLog e action result) this w"
| "apply_op e (OpRecordError err) this w = on_core (recordError e err) this w"
| "apply_op e OpRecreate this w = snd (recreate e this w)"
| "apply_op e (OpDispatchTask subTask targetAgent) this w =
     (if ag_type (core this) = ROOT then snd (dispatchTask e subTask targetAgent this w)
      else (this, w))"
| "apply_op e OpSelfTest this w =
     (if ag_type (core this) = ROOT then (this, w)
      else on_core (\<lambda>c w. snd (selfTest e c w)) this w)"
| "apply_op e (OpReportToParent result) this w =
     (if ag_type (core this) = ROOT then (this, w)
      else on_core (reportToParent e result) this w)"
| "apply_op e OpLoadAgentMd this w =
     (case loadAgentMd e (core this) of
        Inl err \<Rightarrow> (this, w)
      | Inr (content, c) \<Rightarrow> (Agent c (children this), w))"

definition is_loadState :: "node_op \<Rightarrow> bool" where
  "is_loadState op = (case op of OpLoadState state \<Rightarrow> True | _ \<Rightarrow> False)"

text \<open>A stored state whose error history holds 21 entries.\<close>

definition example_state :: IAgentState where
  "example_state =
     \<lparr>ias_description = [], ias_context = createEmptyContext, ias_template = ''ChildAgent'',
      ias_status = IDLE, ias_currentTask = None, ias_errorCount = 21,
      ias_errorHistory = replicate 21 ''E'', ias_lastError = Some ''E'',
      ias_config = example_config ''worker'' CHILD\<rparr>"






section \<open>Error-loop detection\<close>

lemma remdups_one:
  "length (remdups xs) = 1 \<longleftrightarrow> xs \<noteq> [] \<and> (\<forall>x\<in>set xs. \<forall>y\<in>set xs. x = y)"
proof -
  have "length (remdups xs) = card (set xs)" by (simp add: length_remdups_card_conv)
  moreover have "card (set xs) = 1 \<longleftrightarrow> xs \<noteq> [] \<and> (\<forall>x\<in>set xs. \<forall>y\<in>set xs. x = y)"
  proof
    assume "card (set xs) = 1"
    then obtain x where "set xs = {x}" by (auto simp: card_1_singleton_iff)
    then show "xs \<noteq> [] \<and> (\<forall>x\<in>set xs. \<forall>y\<in>set xs. x = y)" by auto
  next
    assume a: "xs \<noteq> [] \<and> (\<forall>x\<in>set xs. \<forall>y\<in>set xs. x = y)"
    then have "set xs = {hd xs}" by (cases xs) auto
    then show "card (set xs) = 1" by simp
  qed
  ultimately show ?thesis by simp
qed

lemma slice_trailing:
  assumes "1 \<le> t" "t \<le> int (length h)"
  shows "js_slice_from (- t) h = drop (length h - nat t) h"
proof -
  have "nat (int (length h) - t) = length h - nat t" using assms by linarith
  then show ?thesis using assms unfolding js_slice_from_def Let_def by (simp add: max_def)
qed

lemma isInErrorLoop_examples:
  "\<not> isInErrorLoop 3 [''A'', ''B'', ''A'']"
  "isInErrorLoop 3 [''A'', ''A'', ''A'']"
  "\<not> isInErrorLoop 3 [''A'', ''A'']"
  by (simp_all add: isInErrorLoop_def js_slice_from_def)

text \<open>
  C2, as stated, for every threshold: \<^verbatim>\<open>isInErrorLoop(threshold)\<close> is true exactly when
  the history has at least \<open>threshold\<close> entries and the trailing \<open>threshold\<close> entries are
  identical. This fails at threshold 0 on the empty history: the statement holds there
  (no entry is required, and no two trailing entries differ), while the code answers
  false, because \<^verbatim>\<open>slice(-0)\<close> is the whole history and the set of its entries has
  size 0, not 1.
\<close>

theorem isInErrorLoop_threshold_zero_counterexample:
  "isInErrorLoop 0 [] \<noteq> error_loop_spec 0 []"
  by (simp add: isInErrorLoop_def error_loop_spec_def js_slice_from_def)

text \<open>
  C2, amended: for every threshold of at least 1, \<^verbatim>\<open>isInErrorLoop(threshold)\<close> is true
  if and only if the error history has at least \<open>threshold\<close> entries and its trailing
  \<open>threshold\<close> entries are all the same text, whatever the older entries are; with
  threshold 3, the history A, B, A gives false, A, A, A gives true, and A, A gives false.
\<close>

theorem isInErrorLoop_iff_trailing_identical:
  assumes "1 \<le> threshold"
  shows "isInErrorLoop threshold h = error_loop_spec threshold h
         \<and> \<not> isInErrorLoop 3 [''A'', ''B'', ''A'']
         \<and> isInErrorLoop 3 [''A'', ''A'', ''A'']
         \<and> \<not> isInErrorLoop 3 [''A'', ''A'']"
proof -
  have main: "isInErrorLoop threshold h = error_loop_spec threshold h"
  proof (cases "threshold \<le> int (length h)")
    case False
    then show ?thesis by (simp add: isInErrorLoop_def error_loop_spec_def)
  next
    case True
    let ?tr = "drop (length h - nat threshold) h"
    have "length ?tr = nat threshold" using assms True by simp
    then have ne: "?tr \<noteq> []" using assms by auto
    have "isInErrorLoop threshold h = (length (remdups ?tr) = 1)"
      using True assms by (simp add: isInErrorLoop_def slice_trailing Let_def)
    also have "\<dots> = (\<forall>x\<in>set ?tr. \<forall>y\<in>set ?tr. x = y)"
      using ne by (simp only: remdups_one) simp
    also have "\<dots> = error_loop_spec threshold h"
      using True by (simp add: error_loop_spec_def list_all_iff Let_def)
    finally show ?thesis .
  qed
  show ?thesis using main isInErrorLoop_examples by simp
qed

theorem isInErrorLoop_iff_trailing_identical_witness:
  "(1::int) \<le> 3
   \<and> isInErrorLoop 3 [''B'', ''A'', ''A'', ''A''] = error_loop_spec 3 [''B'', ''A'', ''A'', ''A'']
   \<and> error_loop_spec 3 [''B'', ''A'', ''A'', ''A'']"
  using isInErrorLoop_iff_trailing_identical [of 3 "[''B'', ''A'', ''A'', ''A'']"]
  by (simp add: error_loop_spec_def)

section \<open>Aggregation of subtask results\<close>

lemma errors_filter:
  "List.map_filter truthy_error results
     = filter (\<lambda>s. s \<noteq> []) (List.map_filter res_error results)"
  by (induction results) (auto simp: truthy_error_def split: option.splits)

text \<open>
  C4, as stated: the aggregated error is the list of the individual error strings joined
  by \<open>;\<close>. On two failed results with the errors \<open>a\<close> and \<open>b\<close> the code returns
  \<open>a; b\<close>: it joins with a semicolon followed by a space.
\<close>

theorem aggregateResults_error_separator_counterexample:
  "res_error (fst (aggregateResults example_env
       [example_result ''t1'' False False (Some ''a''),
        example_result ''t2'' False False (Some ''b'')]
       (core (fst (new_RootAgent example_env (example_config ''root'' ROOT) example_world)))
       example_world))
   \<noteq> aggregate_error_spec
       [example_result ''t1'' False False (Some ''a''),
        example_result ''t2'' False False (Some ''b'')]"
  by (simp add: aggregateResults_def aggregate_error_spec_def example_result_def
      truthy_error_def new_Date_def split_def Let_def)

text \<open>
  C4, amended: for every list of task results, \<^verbatim>\<open>aggregateResults\<close> returns a result
  whose success is the conjunction over all results of success and selfTestPassed; whose
  output carries the total count, the success count, the self-test-passed count and the
  individual outputs that are truthy; and whose error is the non-empty individual error
  strings joined by \<open>; \<close> (a semicolon and a space), absent when there are none. In
  particular, a result that succeeded and passed its self-test followed by one that
  succeeded and did not yields success false, successCount 2, selfTestPassedCount 1.
\<close>

theorem aggregateResults_summary:
  "res_success (fst (aggregateResults e results c w))
     = list_all (\<lambda>r. res_success r \<and> res_selfTestPassed r = Some True) results
   \<and> js_field (res_output (fst (aggregateResults e results c w))) ''subTaskCount''
     = JNum (int (length results))
   \<and> js_field (res_output (fst (aggregateResults e results c w))) ''successCount''
     = JNum (int (length (filter res_success results)))
   \<and> js_field (res_output (fst (aggregateResults e results c w))) ''selfTestPassedCount''
     = JNum (int (length (filter (\<lambda>r. res_selfTestPassed r = Some True) results)))
   \<and> js_field (res_output (fst (aggregateResults e results c w))) ''outputs''
     = JArr (filter truthy (map res_output results))
   \<and> res_error (fst (aggregateResults e results c w))
     = (let errors = filter (\<lambda>s. s \<noteq> []) (List.map_filter res_error results)
        in if errors = [] then None else Some (join_with ''; '' errors))
   \<and> (let r = fst (aggregateResults e
                 [example_result ''t1'' True True None, example_result ''t2'' True False None]
                 c w)
      in res_success r = False
         \<and> js_field (res_output r) ''successCount'' = JNum 2
         \<and> js_field (res_output r) ''selfTestPassedCount'' = JNum 1)"
proof -
  have general:
    "res_success (fst (aggregateResults e rs c w))
       = list_all (\<lambda>r. res_success r \<and> res_selfTestPassed r = Some True) rs"
    "js_field (res_output (fst (aggregateResults e rs c w))) ''subTaskCount''
       = JNum (int (length rs))"
    "js_field (res_output (fst (aggregateResults e rs c w))) ''successCount''
       = JNum (int (length (filter res_success rs)))"
    "js_field (res_output (fst (aggregateResults e rs c w))) ''selfTestPassedCount''
       = JNum (int (length (filter (\<lambda>r. res_selfTestPassed r = Some True) rs)))"
    "js_field (res_output (fst (aggregateResults e rs c w))) ''outputs''
       = JArr (filter truthy (map res_output rs))"
    "res_error (fst (aggregateResults e rs c w))
       = (let errors = filter (\<lambda>s. s \<noteq> []) (List.map_filter res_error rs)
          in if errors = [] then None else Some (join_with ''; '' errors))"
    for rs
    by (auto simp: aggregateResults_def Let_def split_def js_field_def js_get_def
        list_all_iff errors_filter filter_map comp_def)
  have example:
    "let r = fst (aggregateResults e
              [example_result ''t1'' True True None, example_result ''t2'' True False None]
              c w)
     in res_success r = False
        \<and> js_field (res_output r) ''successCount'' = JNum 2
        \<and> js_field (res_output r) ''selfTestPassedCount'' = JNum 1"
    by (simp add: general Let_def example_result_def)
  show ?thesis using general [of results] example by blast
qed

theorem aggregateResults_summary_witness:
  "res_error (fst (aggregateResults example_env
       [example_result ''t1'' False False (Some ''a''),
        example_result ''t2'' True True (Some []),
        example_result ''t3'' False True (Some ''b'')]
       (core (fst (new_RootAgent example_env (example_config ''root'' ROOT) example_world)))
       example_world)) = Some ''a; b''"
  using aggregateResults_summary [of example_env
       "[example_result ''t1'' False False (Some ''a''),
         example_result ''t2'' True True (Some []),
         example_result ''t3'' False True (Some ''b'')]"
       "core (fst (new_RootAgent example_env (example_config ''root'' ROOT) example_world))"
       example_world]
  by (simp add: example_result_def Let_def)

section \<open>The worker: frame lemmas\<close>

lemma only_log_changed_refl [simp]: "only_log_changed c c"
  by (simp add: only_log_changed_def)

lemma only_log_changed_trans:
  "only_log_changed a b \<Longrightarrow> only_log_changed b c \<Longrightarrow> only_log_changed a c"
  unfolding only_log_changed_def
  by (metis agent_core.surjective agent_core.update_convs(10))

lemma only_reads_refl [simp]: "only_reads w w"
  by (simp add: only_reads_def)

lemma only_reads_trans: "only_reads a b \<Longrightarrow> only_reads b c \<Longrightarrow> only_reads a c"
  unfolding only_reads_def
  by (metis world.surjective world.update_convs(2) world.update_convs(3))

lemma updateStatus_eq:
  "updateStatus e s c w =
     (c\<lparr>ag_status := s, ag_updatedAt := date e (dateReads w)\<rparr>,
      w\<lparr>dateReads := Suc (dateReads w),
        storageLog := storageLog w @ [\<lparr>sw_key = ag_id c, sw_status = s, sw_result = None\<rparr>]\<rparr>)"
  by (simp add: updateStatus_def new_Date_def saveState_def Let_def)

lemma addExecutionLog_eq:
  "addExecutionLog e a r c w =
     (c\<lparr>ag_context := (ag_context c)\<lparr>ctx_executionLog :=
           ctx_executionLog (ag_context c) @ [(a, r, date e (dateReads w))]\<rparr>\<rparr>,
      w\<lparr>dateReads := Suc (dateReads w)\<rparr>)"
  by (simp add: addExecutionLog_def new_Date_def Let_def)

lemma addExecutionLog_frame:
  "only_log_changed c (fst (addExecutionLog e a r c w))"
  "only_reads w (snd (addExecutionLog e a r c w))"
  by (simp_all add: addExecutionLog_eq only_log_changed_def only_reads_def)

lemma selfTest_frame:
  "only_log_changed c (fst (snd (selfTest e c w)))"
  "only_reads w (snd (snd (selfTest e c w)))"
  by (auto simp: selfTest_def selfTest_try_def addExecutionLog_eq only_log_changed_def only_reads_def Let_def
      split: option.splits outcome.splits)

lemma performTask_frame:
  "only_log_changed c (fst (snd (performTask e t c w)))"
  "only_reads w (snd (snd (performTask e t c w)))"
  by (auto simp: performTask_def addExecutionLog_eq new_Date_def only_log_changed_def only_reads_def Let_def
      split: option.splits outcome.splits)

lemma addExecutionLog_frameD:
  "addExecutionLog e a r c w = (c', w') \<Longrightarrow> only_log_changed c c' \<and> only_reads w w'"
  using addExecutionLog_frame by (metis fst_conv snd_conv)

lemma selfTest_frameD:
  "selfTest e c w = (x, c', w') \<Longrightarrow> only_log_changed c c' \<and> only_reads w w'"
  using selfTest_frame by (metis fst_conv snd_conv)

lemma performTask_frameD:
  "performTask e t c w = (x, c', w') \<Longrightarrow> only_log_changed c c' \<and> only_reads w w'"
  using performTask_frame by (metis fst_conv snd_conv)



lemma reportResult_core:
  "fst (reportResult e r c w) = c\<lparr>ag_updatedAt := date e (dateReads w)\<rparr>"
  by (simp add: reportResult_def new_Date_def saveState_def Let_def split: option.splits)

lemma reportResult_log:
  "storageLog (snd (reportResult e r c w)) =
     storageLog w @ [state_record c] @ (if parent_present c then [child_result_record c r] else [])"
  by (simp add: reportResult_def new_Date_def saveState_def Let_def parent_present_def
      state_record_def child_result_record_def split: option.splits)

lemma reportToParent_core:
  "\<exists>cx d. fst (reportToParent e r c w) = c\<lparr>ag_context := cx, ag_updatedAt := d\<rparr>"
proof (cases "parent_present c")
  case False
  then have "fst (reportToParent e r c w) = c"
    by (auto simp: reportToParent_def parent_present_def split: option.splits)
  then have "fst (reportToParent e r c w) = c\<lparr>ag_context := ag_context c, ag_updatedAt := ag_updatedAt c\<rparr>"
    by simp
  then show ?thesis by blast
next
  case True
  then show ?thesis
    by (auto simp: reportToParent_def parent_present_def reportResult_core addExecutionLog_eq split_def
        split: option.splits)
qed

lemma reportToParent_log:
  "storageLog (snd (reportToParent e r c w)) =
     storageLog w @ (if parent_present c then [state_record c, child_result_record c r] else [])"
  by (auto simp: reportToParent_def parent_present_def reportResult_log addExecutionLog_eq split_def
        state_record_def child_result_record_def
        split: option.splits)


lemma olc_D: "only_log_changed c c' \<Longrightarrow> \<exists>cx. c' = c\<lparr>ag_context := cx\<rparr>"
  unfolding only_log_changed_def by blast

lemma olc_I: "c' = c\<lparr>ag_context := cx\<rparr> \<Longrightarrow> only_log_changed c c'"
  unfolding only_log_changed_def by simp

lemma only_reads_log: "only_reads w w' \<Longrightarrow> storageLog w' = storageLog w"
  unfolding only_reads_def by (metis world.select_convs(4) world.surjective world.update_convs(2) world.update_convs(3))

lemma try_Inl:
  assumes "executeTask_try e task c w = (Inl err, c1, w1)"
  shows "only_log_changed c c1 \<and> storageLog w1 = storageLog w"
proof (cases "validateTaskContext task")
  case False
  then show ?thesis using assms by (simp add: executeTask_try_def)
next
  case True
  obtain x1 c2 w2 where p: "performTask e task c w = (x1, c2, w2)" by (cases "performTask e task c w")
  have f1: "only_log_changed c c2" "only_reads w w2"
    using performTask_frameD[OF p] by simp_all
  show ?thesis
  proof (cases x1)
    case (Inl a)
    then show ?thesis using assms True p f1 by (auto simp: executeTask_try_def only_reads_log)
  next
    case (Inr out)
    obtain c3 w3 where a: "addExecutionLog e ''self_test'' ''Running self-test with LLM...'' c2 w2 = (c3, w3)"
      by (cases "addExecutionLog e ''self_test'' ''Running self-test with LLM...'' c2 w2")
    have f2: "only_log_changed c2 c3" "only_reads w2 w3"
      using addExecutionLog_frameD[OF a] by simp_all
    obtain x2 c4 w4 where s: "selfTest e c3 w3 = (x2, c4, w4)" by (cases "selfTest e c3 w3")
    have f3: "only_log_changed c3 c4" "only_reads w3 w4"
      using selfTest_frameD[OF s] by simp_all
    have f: "only_log_changed c c4" "only_reads w w4"
      using f1 f2 f3 by (blast intro: only_log_changed_trans only_reads_trans)+
    show ?thesis
    proof (cases x2)
      case (Inl b)
      then show ?thesis using assms True p Inr a s f by (auto simp: executeTask_try_def only_reads_log)
    next
      case (Inr passed)
      then show ?thesis using assms True p \<open>x1 = Inr out\<close> a s f
        by (auto simp: executeTask_try_def only_reads_log split_def Let_def split: if_splits)
    qed
  qed
qed

lemma try_Inr:
  assumes "executeTask_try e task c w = (Inr result, c1, w1)"
  shows "res_success result \<and> res_taskId result = task_id task
         \<and> res_selfTestPassed result = Some True
         \<and> (\<exists>cx d. c1 = c\<lparr>ag_context := cx, ag_status := COMPLETED, ag_updatedAt := d\<rparr>)
         \<and> state_record c1 \<in> set (storageLog w1)
         \<and> (parent_present c \<longrightarrow> child_result_record c1 result \<in> set (storageLog w1))"
proof -
  have v: "validateTaskContext task" using assms by (auto simp: executeTask_try_def split: if_splits)
  obtain x1 c2 w2 where p: "performTask e task c w = (x1, c2, w2)" by (cases "performTask e task c w")
  have f1: "only_log_changed c c2" using performTask_frameD[OF p] by simp
  obtain out where x1: "x1 = Inr out" using assms v p by (cases x1) (auto simp: executeTask_try_def)
  obtain c3 w3 where a: "addExecutionLog e ''self_test'' ''Running self-test with LLM...'' c2 w2 = (c3, w3)"
    by (cases "addExecutionLog e ''self_test'' ''Running self-test with LLM...'' c2 w2")
  have f2: "only_log_changed c2 c3"
    using addExecutionLog_frameD[OF a] by simp
  obtain x2 c4 w4 where s: "selfTest e c3 w3 = (x2, c4, w4)" by (cases "selfTest e c3 w3")
  have f3: "only_log_changed c3 c4" using selfTest_frameD[OF s] by simp
  have x2: "x2 = Inr True" using assms v p x1 a s
    by (cases x2) (auto simp: executeTask_try_def split: if_splits)
  obtain c5 w5 where a2: "addExecutionLog e ''self_test_passed'' ''Self-test passed'' c4 w4 = (c5, w5)"
    by (cases "addExecutionLog e ''self_test_passed'' ''Self-test passed'' c4 w4")
  have f4: "only_log_changed c4 c5"
    using addExecutionLog_frameD[OF a2] by simp
  have "only_log_changed c c5"
    using f1 f2 f3 f4 by (blast intro: only_log_changed_trans)
  then obtain cx where c5: "c5 = c\<lparr>ag_context := cx\<rparr>" using olc_D by blast
  define r where "r = \<lparr>res_taskId = task_id task, res_success = True, res_output = out,
      res_error = None, res_completedAt = date e (dateReads w5), res_selfTestPassed = Some True\<rparr>"
  define w6 where "w6 = w5\<lparr>dateReads := Suc (dateReads w5)\<rparr>"
  define c6 where "c6 = fst (updateStatus e COMPLETED c5 w6)"
  define w7 where "w7 = snd (updateStatus e COMPLETED c5 w6)"
  define c7 where "c7 = fst (reportResult e r c6 w7)"
  define w8 where "w8 = snd (reportResult e r c6 w7)"
  have "executeTask_try e task c w = (Inr r, reportToParent e r c7 w8)"
    using v p x1 a s x2 a2
    by (simp add: executeTask_try_def new_Date_def split_def Let_def r_def w6_def c6_def w7_def c7_def w8_def)
  with assms have res: "result = r" "c1 = fst (reportToParent e r c7 w8)" "w1 = snd (reportToParent e r c7 w8)"
    by auto
  have c6: "c6 = c\<lparr>ag_context := cx, ag_status := COMPLETED, ag_updatedAt := date e (dateReads w6)\<rparr>"
    by (simp add: c6_def updateStatus_eq c5)
  have c7: "c7 = c6\<lparr>ag_updatedAt := date e (dateReads w7)\<rparr>"
    by (simp add: c7_def reportResult_core)
  obtain cx' d' where c1: "c1 = c7\<lparr>ag_context := cx', ag_updatedAt := d'\<rparr>"
    using reportToParent_core[of e r c7 w8] res by auto
  have shape: "c1 = c\<lparr>ag_context := cx', ag_status := COMPLETED, ag_updatedAt := d'\<rparr>"
    by (simp add: c1 c7 c6)
  have pp: "parent_present c7 = parent_present c" "state_record c7 = state_record c1"
     "child_result_record c7 r = child_result_record c1 r" "state_record c6 = state_record c1"
    by (simp_all add: c1 c7 c6 parent_present_def state_record_def child_result_record_def)
  have log8: "storageLog w8 = storageLog w7 @ [state_record c1] @ (if parent_present c then [child_result_record c1 r] else [])"
    using reportResult_log[where e=e and r=r and c=c6 and w=w7] pp c7 c6
    by (simp add: w8_def parent_present_def state_record_def child_result_record_def)
  have log1: "storageLog w1 = storageLog w8 @ (if parent_present c then [state_record c1, child_result_record c1 r] else [])"
    using reportToParent_log[where e=e and r=r and c=c7 and w=w8] pp res(3) by simp
  have m1: "state_record c1 \<in> set (storageLog w1)"
    by (simp add: log1 log8)
  have m2: "parent_present c \<longrightarrow> child_result_record c1 result \<in> set (storageLog w1)"
    by (simp add: log1 log8 res(1))
  have r1: "res_success result \<and> res_taskId result = task_id task
         \<and> res_selfTestPassed result = Some True"
    by (simp add: res(1) r_def)
  show ?thesis using r1 shape m1 m2 by blast
qed


lemma recordError_core:
  "\<exists>m d. fst (recordError e err c w) =
     c\<lparr>ag_errorCount := Suc (ag_errorCount c), ag_lastError := Some err,
       ag_errorHistory := push_error err (ag_errorHistory c), ag_updatedAt := d,
       ag_monitor := m\<rparr>"
proof (cases "ag_monitor c")
  case None
  have "fst (recordError e err c w) =
     c\<lparr>ag_errorCount := Suc (ag_errorCount c), ag_lastError := Some err,
       ag_errorHistory := push_error err (ag_errorHistory c), ag_updatedAt := date e (dateReads w),
       ag_monitor := ag_monitor c\<rparr>"
    using None by (simp add: recordError_def new_Date_def saveState_def Let_def split_def)
  then show ?thesis by blast
next
  case (Some m)
  then show ?thesis
    by (auto simp: recordError_def new_Date_def saveState_def Let_def split_def)
qed

lemma catch_props:
  assumes "executeTask_catch e task err c w = (result, c1, w1)"
  shows "res_taskId result = task_id task \<and> \<not> res_success result
         \<and> res_error result = Some (error_message err)
         \<and> res_selfTestPassed result = Some False
         \<and> (\<exists>cx d m. c1 = c\<lparr>ag_context := cx,
               ag_errorCount := Suc (ag_errorCount c), ag_lastError := Some (error_message err),
               ag_errorHistory := push_error (error_message err) (ag_errorHistory c),
               ag_monitor := m,
               ag_status := (if isInErrorLoop 3 (push_error (error_message err) (ag_errorHistory c))
                             then ERROR_LOOP else FAILED),
               ag_updatedAt := d\<rparr>)
         \<and> state_record c1 \<in> set (storageLog w1)
         \<and> (parent_present c \<longrightarrow> child_result_record c1 result \<in> set (storageLog w1))"
proof -
  let ?msg = "error_message err"
  define c2 where "c2 = fst (addExecutionLog e ''error'' (''Error: '' @ ?msg) c w)"
  define w2 where "w2 = snd (addExecutionLog e ''error'' (''Error: '' @ ?msg) c w)"
  define c3 where "c3 = fst (recordError e ?msg c2 w2)"
  define w3 where "w3 = snd (recordError e ?msg c2 w2)"
  define st where "st = (if isInErrorLoop 3 (ag_errorHistory c3) then ERROR_LOOP else FAILED)"
  define c4 where "c4 = fst (updateStatus e st c3 w3)"
  define w4 where "w4 = snd (updateStatus e st c3 w3)"
  define r where "r = \<lparr>res_taskId = task_id task, res_success = False, res_output = JUndefined,
                    res_error = Some ?msg, res_completedAt = date e (dateReads w4),
                    res_selfTestPassed = Some False\<rparr>"
  define w5 where "w5 = w4\<lparr>dateReads := Suc (dateReads w4)\<rparr>"
  define c6 where "c6 = fst (reportResult e r c4 w5)"
  define w6 where "w6 = snd (reportResult e r c4 w5)"
  have "executeTask_catch e task err c w = (r, reportToParent e r c6 w6)"
    by (simp add: executeTask_catch_def new_Date_def split_def Let_def r_def w5_def c6_def w6_def
        c4_def w4_def st_def c3_def w3_def c2_def w2_def if_distrib[of fst] if_distrib[of snd]
        if_distrib[of "\<lambda>p. updateStatus e p c3 w3", symmetric] cong: if_cong)
  with assms have res: "result = r" "c1 = fst (reportToParent e r c6 w6)"
      "w1 = snd (reportToParent e r c6 w6)"
    by auto
  obtain cx where c2: "c2 = c\<lparr>ag_context := cx\<rparr>"
    by (simp add: c2_def addExecutionLog_eq)
  obtain m d where c3: "c3 = c2\<lparr>ag_errorCount := Suc (ag_errorCount c2), ag_lastError := Some ?msg,
       ag_errorHistory := push_error ?msg (ag_errorHistory c2), ag_updatedAt := d,
       ag_monitor := m\<rparr>"
    using recordError_core[where e=e and err="?msg" and c=c2 and w=w2] c3_def by auto
  have st: "st = (if isInErrorLoop 3 (push_error ?msg (ag_errorHistory c)) then ERROR_LOOP else FAILED)"
    by (simp add: st_def c3 c2)
  have c4: "c4 = c3\<lparr>ag_status := st, ag_updatedAt := date e (dateReads w3)\<rparr>"
    by (simp add: c4_def updateStatus_eq)
  have c6: "c6 = c4\<lparr>ag_updatedAt := date e (dateReads w5)\<rparr>"
    by (simp add: c6_def reportResult_core)
  obtain cx' d' where c1: "c1 = c6\<lparr>ag_context := cx', ag_updatedAt := d'\<rparr>"
    using reportToParent_core[where e=e and r=r and c=c6 and w=w6] res by auto
  have shape: "c1 = c\<lparr>ag_context := cx',
               ag_errorCount := Suc (ag_errorCount c), ag_lastError := Some ?msg,
               ag_errorHistory := push_error ?msg (ag_errorHistory c),
               ag_monitor := m,
               ag_status := st,
               ag_updatedAt := d'\<rparr>"
    by (simp add: c1 c6 c4 c3 c2)
  have pp: "parent_present c6 = parent_present c" "state_record c6 = state_record c1"
     "child_result_record c6 r = child_result_record c1 r" "state_record c4 = state_record c1"
     "parent_present c4 = parent_present c" "child_result_record c4 r = child_result_record c1 r"
    by (simp_all add: c1 c6 c4 c3 c2 parent_present_def state_record_def child_result_record_def)
  have log6: "storageLog w6 = storageLog w5 @ [state_record c1] @ (if parent_present c then [child_result_record c1 r] else [])"
    using reportResult_log[where e=e and r=r and c=c4 and w=w5] pp
    by (simp add: w6_def)
  have log1: "storageLog w1 = storageLog w6 @ (if parent_present c then [state_record c1, child_result_record c1 r] else [])"
    using reportToParent_log[where e=e and r=r and c=c6 and w=w6] pp res(3) by simp
  have m1: "state_record c1 \<in> set (storageLog w1)"
    by (simp add: log1 log6)
  have m2: "parent_present c \<longrightarrow> child_result_record c1 result \<in> set (storageLog w1)"
    by (simp add: log1 log6 res(1))
  have r1: "res_taskId result = task_id task \<and> \<not> res_success result
         \<and> res_error result = Some ?msg \<and> res_selfTestPassed result = Some False"
    by (simp add: res(1) r_def)
  show ?thesis using r1 shape st m1 m2 by blast
qed


lemma ChildAgent_executeTask_post:
  "\<exists>result c' w' cx d m.
     ChildAgent_executeTask e task c w = (Inr result, c', w')
     \<and> res_taskId result = task_id task
     \<and> (if res_success result
        then c' = c\<lparr>ag_context := cx, ag_currentTask := Some task, ag_status := COMPLETED,
                     ag_updatedAt := d\<rparr>
             \<and> res_selfTestPassed result = Some True
        else (\<exists>msg. res_error result = Some msg
              \<and> res_selfTestPassed result = Some False
              \<and> c' = c\<lparr>ag_context := cx, ag_currentTask := Some task,
                   ag_errorCount := Suc (ag_errorCount c), ag_lastError := Some msg,
                   ag_errorHistory := push_error msg (ag_errorHistory c),
                   ag_monitor := m,
                   ag_status := (if isInErrorLoop 3 (push_error msg (ag_errorHistory c))
                                 then ERROR_LOOP else FAILED),
                   ag_updatedAt := d\<rparr>))
     \<and> state_record c' \<in> set (storageLog w')
     \<and> (parent_present c \<longrightarrow> child_result_record c' result \<in> set (storageLog w'))"
proof -
  define c3 where "c3 = fst (addExecutionLog e ''task_start'' (''Starting task: '' @ task_description task)
       ((fst (updateStatus e RUNNING c w))\<lparr>ag_currentTask := Some task\<rparr>) (snd (updateStatus e RUNNING c w)))"
  define w3 where "w3 = snd (addExecutionLog e ''task_start'' (''Starting task: '' @ task_description task)
       ((fst (updateStatus e RUNNING c w))\<lparr>ag_currentTask := Some task\<rparr>) (snd (updateStatus e RUNNING c w)))"
  have "\<exists>cx0 d0. c3 = c\<lparr>ag_context := cx0, ag_currentTask := Some task, ag_status := RUNNING,
       ag_updatedAt := d0\<rparr>"
    unfolding c3_def updateStatus_eq addExecutionLog_eq fst_conv snd_conv
    by (intro exI[of _ "date e (dateReads w)"] exI[of _ "(ag_context c)\<lparr>ctx_executionLog := ctx_executionLog (ag_context c) @ [(''task_start'', ''Starting task: '' @ task_description task, date e (Suc (dateReads w)))]\<rparr>"]) simp
  then obtain cx0 d0 where c3: "c3 = c\<lparr>ag_context := cx0, ag_currentTask := Some task, ag_status := RUNNING,
       ag_updatedAt := d0\<rparr>"
    by blast
  have pp: "parent_present c3 = parent_present c"
    by (simp add: c3 parent_present_def)
  obtain x c4 w4 where t: "executeTask_try e task c3 w3 = (x, c4, w4)"
    by (cases "executeTask_try e task c3 w3")
  show ?thesis
  proof (cases x)
    case (Inr result)
    have run: "ChildAgent_executeTask e task c w = (Inr result, c4, w4)"
      using t Inr by (simp add: ChildAgent_executeTask_def split_def Let_def c3_def w3_def)
    from try_Inr[OF t[unfolded Inr]] obtain cx d where
      r: "res_success result" "res_taskId result = task_id task" "res_selfTestPassed result = Some True"
      and c4: "c4 = c3\<lparr>ag_context := cx, ag_status := COMPLETED, ag_updatedAt := d\<rparr>"
      and l: "state_record c4 \<in> set (storageLog w4)"
         "parent_present c3 \<longrightarrow> child_result_record c4 result \<in> set (storageLog w4)"
      by blast
    have "c4 = c\<lparr>ag_context := cx, ag_currentTask := Some task, ag_status := COMPLETED, ag_updatedAt := d\<rparr>"
      by (simp add: c4 c3)
    then show ?thesis using run r l pp by auto
  next
    case (Inl err)
    obtain result c5 w5 where k: "executeTask_catch e task err c4 w4 = (result, c5, w5)"
      by (cases "executeTask_catch e task err c4 w4")
    have run: "ChildAgent_executeTask e task c w = (Inr result, c5, w5)"
      using t Inl k by (simp add: ChildAgent_executeTask_def split_def Let_def c3_def w3_def)
    from try_Inl[OF t[unfolded Inl]] obtain cx1 where c4: "c4 = c3\<lparr>ag_context := cx1\<rparr>"
      using olc_D by blast
    have pp4: "parent_present c4 = parent_present c"
      by (simp add: c4 c3 parent_present_def)
    let ?msg = "error_message err"
    from catch_props[OF k] obtain cx d m where
      r: "res_taskId result = task_id task" "\<not> res_success result"
         "res_error result = Some ?msg" "res_selfTestPassed result = Some False"
      and c5: "c5 = c4\<lparr>ag_context := cx,
               ag_errorCount := Suc (ag_errorCount c4), ag_lastError := Some ?msg,
               ag_errorHistory := push_error ?msg (ag_errorHistory c4),
               ag_monitor := m,
               ag_status := (if isInErrorLoop 3 (push_error ?msg (ag_errorHistory c4))
                             then ERROR_LOOP else FAILED),
               ag_updatedAt := d\<rparr>"
      and l: "state_record c5 \<in> set (storageLog w5)"
         "parent_present c4 \<longrightarrow> child_result_record c5 result \<in> set (storageLog w5)"
      by blast
    have "c5 = c\<lparr>ag_context := cx, ag_currentTask := Some task,
                   ag_errorCount := Suc (ag_errorCount c), ag_lastError := Some ?msg,
                   ag_errorHistory := push_error ?msg (ag_errorHistory c),
                   ag_monitor := m,
                   ag_status := (if isInErrorLoop 3 (push_error ?msg (ag_errorHistory c))
                                 then ERROR_LOOP else FAILED),
                   ag_updatedAt := d\<rparr>"
      by (simp add: c5 c4 c3)
    then show ?thesis using run r l pp4 by auto
  qed
qed


section \<open>The worker: self-test\<close>



section \<open>The worker: executing a task\<close>




section \<open>Context isolation at dispatch\<close>

lemma map_of_map_set: "map_of (map_set k v kvs) = (map_of kvs)(k \<mapsto> v)"
  by (induction kvs) (auto simp: fun_eq_iff)

lemma js_get_map_set_other:
  "k' \<noteq> k \<Longrightarrow> js_get (Some (map_set k v kvs)) k' = js_get (Some kvs) k'"
  by (simp add: js_get_def map_of_map_set)

lemma isolatedTask_with_originalContext:
  "isolatedTask (with_originalContext v subTask) = isolatedTask subTask"
  by (cases "task_context subTask")
     (simp_all add: isolatedTask_def with_originalContext_def js_get_map_set_other,
      simp_all add: js_get_def)

lemma dispatchTask_with_originalContext:
  "dispatchTask e (with_originalContext v subTask) t this w = dispatchTask e subTask t this w"
  by (simp add: dispatchTask_def isolatedTask_with_originalContext cong: option.case_cong)

lemma worker_currentTask:
  "ag_currentTask (fst (snd (ChildAgent_executeTask e task c w))) = Some task"
proof -
  obtain result c' w' cx d m where
    run: "ChildAgent_executeTask e task c w = (Inr result, c', w')"
    and shape: "if res_success result
        then c' = c\<lparr>ag_context := cx, ag_currentTask := Some task, ag_status := COMPLETED,
                     ag_updatedAt := d\<rparr>
             \<and> res_selfTestPassed result = Some True
        else (\<exists>msg. res_error result = Some msg
              \<and> res_selfTestPassed result = Some False
              \<and> c' = c\<lparr>ag_context := cx, ag_currentTask := Some task,
                   ag_errorCount := Suc (ag_errorCount c), ag_lastError := Some msg,
                   ag_errorHistory := push_error msg (ag_errorHistory c),
                   ag_monitor := m,
                   ag_status := (if isInErrorLoop 3 (push_error msg (ag_errorHistory c))
                                 then ERROR_LOOP else FAILED),
                   ag_updatedAt := d\<rparr>)"
    using ChildAgent_executeTask_post [of e task c w] by blast
  show ?thesis using run shape by (auto split: if_splits)
qed

lemma dispatch_currentTask:
  assumes "map_of (children this) k = Some a"
  shows "map_option (\<lambda>x. ag_currentTask (core x))
           (map_of (children (fst (snd (dispatchTask e subTask (Some k) this w)))) k)
         = Some (Some (isolatedTask subTask))"
  using assms worker_currentTask[of e "isolatedTask subTask" "core a" w]
  by (simp add: dispatchTask_def split_def Let_def map_of_map_set)

text \<open>
  C1: the task object that \<^verbatim>\<open>dispatchTask\<close> builds has a context with exactly the
  three entries instruction (the subtask's description), step and totalSteps, and so no
  \<^verbatim>\<open>originalContext\<close>; for any two values of the subtask's \<^verbatim>\<open>originalContext\<close>
  the task view is the same, and so is everything the dispatch returns and leaves behind;
  and the worker that was dispatched to holds that task view as its current task.
\<close>

theorem dispatchTask_isolates_context:
  "task_context (isolatedTask subTask) =
      Some [(''instruction'', JStr (task_description subTask)),
            (''step'', js_get (task_context subTask) ''step''),
            (''totalSteps'', js_get (task_context subTask) ''totalSteps'')]
   \<and> map_of (the (task_context (isolatedTask subTask))) ''originalContext'' = None
   \<and> isolatedTask (with_originalContext v subTask) = isolatedTask (with_originalContext v' subTask)
   \<and> dispatchTask e (with_originalContext v subTask) targetAgent this w
       = dispatchTask e (with_originalContext v' subTask) targetAgent this w
   \<and> (map_of (children this) k = Some a \<longrightarrow>
        map_option (\<lambda>x. ag_currentTask (core x))
          (map_of (children (fst (snd (dispatchTask e subTask (Some k) this w)))) k)
        = Some (Some (isolatedTask subTask)))"
  using dispatch_currentTask[of this k a e subTask w]
  by (simp add: isolatedTask_with_originalContext dispatchTask_with_originalContext)
     (simp add: isolatedTask_def)

lemma example_root_worker:
  "map_of (children example_root) ''uuid-1'' = Some (the (map_of (children example_root) ''uuid-1''))"
  by code_simp

theorem dispatchTask_isolates_context_witness:
  "map_of (children example_root) ''uuid-1'' = Some (the (map_of (children example_root) ''uuid-1''))
   \<and> map_option (\<lambda>x. ag_currentTask (core x))
        (map_of (children (fst (snd (dispatchTask example_env
            (with_originalContext (JStr ''secret'') (example_task ''s1'' ''step one''))
            (Some ''uuid-1'') example_root example_world)))) ''uuid-1'')
      = Some (Some (isolatedTask (example_task ''s1'' ''step one'')))"
  using dispatchTask_isolates_context
     [of "with_originalContext (JStr ''secret'') (example_task ''s1'' ''step one'')"
         JNull "JStr ''other''" example_env None example_root example_world
         "''uuid-1''" "the (map_of (children example_root) ''uuid-1'')"]
    example_root_worker
  by (simp add: isolatedTask_with_originalContext)

section \<open>Adding a child\<close>

lemma new_Agent_fields:
  "ag_type (core (fst (new_Agent e config w))) = cfg_type config"
  "ag_parentId (core (fst (new_Agent e config w))) = field_opt (cfg_parentId config)"
  "ag_name (core (fst (new_Agent e config w))) = cfg_name config"
  "ag_status (core (fst (new_Agent e config w))) = IDLE"
  "ag_errorHistory (core (fst (new_Agent e config w))) = []"
  "ag_config (core (fst (new_Agent e config w))) = with_defaults config"
  "children (fst (new_Agent e config w)) = []"
  by (simp_all add: new_Agent_def split_def Let_def)




section \<open>Termination\<close>

lemma Monitor_stop_idem [simp]: "Monitor_stop (Monitor_stop m) = Monitor_stop m"
  by (simp add: Monitor_stop_def)

lemma terminate_shape:
  "forget_updatedAt (fst (terminate e r a w)) = terminated_shape a"
  "map (\<lambda>(k, a). (k, forget_updatedAt a)) (fst (terminate_children e r' ch w))
     = map (\<lambda>(k, a). (k, terminated_shape a)) ch"
proof (induction e r a w and e r' ch w rule: terminate_terminate_children.induct)
  case (1 e reason c ch w)
  let ?w0 = "w\<lparr>terminateLog := terminateLog w @ [(ag_id c, reason)]\<rparr>"
  let ?U = "updateStatus e TERMINATED c ?w0"
  note ih = "1.IH"[OF refl refl, of "fst ?U" "snd ?U", simplified]
  show ?case using ih
    by (simp add: split_def Let_def updateStatus_eq new_Date_def)
next
  case (2 e r w)
  show ?case by simp
next
  case (3 e r k a kvs w)
  let ?T = "terminate e (Some r) a w"
  note ih1 = "3.IH"(1)
  note ih2 = "3.IH"(2)[OF refl, of "fst ?T" "snd ?T", simplified]
  show ?case using ih1 ih2 by (simp add: split_def Let_def)
qed

lemma terminated_shape_terminate:
  "terminated_shape (fst (terminate e r a w)) = terminated_shape a"
  "map (\<lambda>(k, a). (k, terminated_shape a)) (fst (terminate_children e r' ch w))
     = map (\<lambda>(k, a). (k, terminated_shape a)) ch"
proof (induction e r a w and e r' ch w rule: terminate_terminate_children.induct)
  case (1 e reason c ch w)
  let ?w0 = "w\<lparr>terminateLog := terminateLog w @ [(ag_id c, reason)]\<rparr>"
  let ?U = "updateStatus e TERMINATED c ?w0"
  note ih = "1.IH"[OF refl refl, of "fst ?U" "snd ?U", simplified]
  show ?case using ih
    by (simp add: split_def Let_def updateStatus_eq new_Date_def option.map_comp comp_def)
next
  case (2 e r w)
  show ?case by simp
next
  case (3 e r k a kvs w)
  let ?T = "terminate e (Some r) a w"
  note ih1 = "3.IH"(1)
  note ih2 = "3.IH"(2)[OF refl, of "fst ?T" "snd ?T", simplified]
  show ?case using ih1 ih2 by (simp add: split_def Let_def)
qed

lemma terminate_idempotent_shape:
  "forget_updatedAt (fst (terminate e r2 (fst (terminate e r1 a w)) w2))
     = forget_updatedAt (fst (terminate e r1 a w))"
  by (simp add: terminate_shape terminated_shape_terminate)

lemma terminate_core:
  "core (fst (terminate e r a w)) =
     (core a)\<lparr>ag_status := TERMINATED, ag_monitor := map_option Monitor_stop (ag_monitor (core a)),
              ag_updatedAt := ag_updatedAt (core (fst (terminate e r a w)))\<rparr>"
  by (cases a) (simp add: split_def Let_def updateStatus_eq new_Date_def)

lemma terminate_status [simp]: "ag_status (core (fst (terminate e r a w))) = TERMINATED"
  by (subst terminate_core) simp

lemma terminate_keys:
  "map fst (children (fst (terminate e r a w))) = map fst (children a)"
  "map fst (fst (terminate_children e r' ch w)) = map fst ch"
proof (induction e r a w and e r' ch w rule: terminate_terminate_children.induct)
  case (1 e reason c ch w)
  let ?w0 = "w\<lparr>terminateLog := terminateLog w @ [(ag_id c, reason)]\<rparr>"
  let ?U = "updateStatus e TERMINATED c ?w0"
  note ih = "1.IH"[OF refl refl, of "fst ?U" "snd ?U", simplified]
  show ?case using ih by (simp add: split_def Let_def)
next
  case (2 e r w)
  show ?case by simp
next
  case (3 e r k a kvs w)
  let ?T = "terminate e (Some r) a w"
  note ih2 = "3.IH"(2)[OF refl, of "fst ?T" "snd ?T", simplified]
  show ?case using ih2 by (simp add: split_def Let_def)
qed

lemma terminate_descendants:
  "\<forall>d \<in> set (getAllDescendants (fst (terminate e r a w))). ag_status (core d) = TERMINATED"
  "\<forall>(k, c) \<in> set (fst (terminate_children e r' ch w)).
      ag_status (core c) = TERMINATED
      \<and> (\<forall>d \<in> set (getAllDescendants c). ag_status (core d) = TERMINATED)"
proof (induction e r a w and e r' ch w rule: terminate_terminate_children.induct)
  case (1 e reason c ch w)
  let ?w0 = "w\<lparr>terminateLog := terminateLog w @ [(ag_id c, reason)]\<rparr>"
  let ?U = "updateStatus e TERMINATED c ?w0"
  note ih = "1.IH"[OF refl refl, of "fst ?U" "snd ?U", simplified]
  show ?case using ih by (fastforce simp: split_def Let_def)
next
  case (2 e r w)
  show ?case by simp
next
  case (3 e r k a kvs w)
  let ?T = "terminate e (Some r) a w"
  note ih1 = "3.IH"(1)
  note ih2 = "3.IH"(2)[OF refl, of "fst ?T" "snd ?T", simplified]
  show ?case using ih1 ih2 by (simp add: split_def Let_def)
qed


lemma terminate_log:
  "terminateLog (snd (terminate e r a w)) = terminateLog w @ terminate_calls r a
   \<and> uuidReads (snd (terminate e r a w)) = uuidReads w
   \<and> oracleCalls (snd (terminate e r a w)) = oracleCalls w"
  "terminateLog (snd (terminate_children e r' ch w))
     = terminateLog w @ concat (map (\<lambda>(k, a). terminate_calls (Some r') a) ch)
   \<and> uuidReads (snd (terminate_children e r' ch w)) = uuidReads w
   \<and> oracleCalls (snd (terminate_children e r' ch w)) = oracleCalls w"
proof (induction e r a w and e r' ch w rule: terminate_terminate_children.induct)
  case (1 e reason c ch w)
  let ?w0 = "w\<lparr>terminateLog := terminateLog w @ [(ag_id c, reason)]\<rparr>"
  let ?U = "updateStatus e TERMINATED c ?w0"
  note ih = "1.IH"[OF refl refl, of "fst ?U" "snd ?U", simplified]
  show ?case using ih
    by (simp add: split_def Let_def updateStatus_eq new_Date_def saveState_def)
next
  case (2 e r w)
  show ?case by simp
next
  case (3 e r k a kvs w)
  let ?T = "terminate e (Some r) a w"
  note ih1 = "3.IH"(1)
  note ih2 = "3.IH"(2)[OF refl, of "fst ?T" "snd ?T", simplified]
  show ?case using ih1 ih2 by (simp add: split_def Let_def)
qed

lemma child_in_terminate_calls:
  assumes "(k, c) \<in> set (children a)"
  shows "(ag_id (core c),
          Some (''Parent agent '' @ ag_id (core a) @ '' terminated: '' @ reason_or_unknown r))
         \<in> set (terminate_calls r a)"
proof -
  obtain x ch where a: "a = Agent x ch" by (cases a)
  obtain y ch' where c: "c = Agent y ch'" by (cases c)
  show ?thesis using assms unfolding a c
    by (auto intro!: bexI[of _ "(k, Agent y ch')"])
qed

lemma Agent_initialize_core:
  "fst (Agent_initialize e c w) =
     c\<lparr>ag_status := IDLE, ag_updatedAt := date e (dateReads w),
       ag_monitor := map_option Monitor_start (ag_monitor c)\<rparr>"
  "terminateLog (snd (Agent_initialize e c w)) = terminateLog w"
  by (simp_all add: Agent_initialize_def updateStatus_eq saveState_def split_def Let_def)

lemma RootAgent_initialize_core:
  "fst (RootAgent_initialize e c w) =
     c\<lparr>ag_status := IDLE, ag_updatedAt := ag_updatedAt (fst (RootAgent_initialize e c w)),
       ag_monitor := map_option Monitor_start (ag_monitor c)\<rparr>"
  "terminateLog (snd (RootAgent_initialize e c w)) = terminateLog w"
  by (simp_all add: RootAgent_initialize_def updateStatus_eq Agent_initialize_core split_def Let_def)

lemma ChildAgent_initialize_core:
  "fst (ChildAgent_initialize e c w) =
     c\<lparr>ag_status := IDLE, ag_updatedAt := ag_updatedAt (fst (ChildAgent_initialize e c w)),
       ag_monitor := map_option Monitor_start (ag_monitor c),
       ag_agentMdContent := ag_agentMdContent (fst (ChildAgent_initialize e c w))\<rparr>"
  "terminateLog (snd (ChildAgent_initialize e c w)) = terminateLog w"
  by (auto simp: ChildAgent_initialize_def updateStatus_eq Agent_initialize_core split_def Let_def
      loadAgentMd_def split: option.splits sum.splits)





text \<open>
  C7, as stated: a second call of \<^verbatim>\<open>terminate\<close> leaves the node in the same state as
  after the first call. Every call sets \<^verbatim>\<open>updatedAt\<close> to the current time (twice:
  in \<^verbatim>\<open>updateStatus\<close> and before saving), so with a clock that has moved on the
  state after the second call differs from the state after the first.
\<close>

theorem terminate_twice_counterexample:
  "fst (terminate example_env None
          (fst (terminate example_env None example_root example_world))
          (snd (terminate example_env None example_root example_world)))
   \<noteq> fst (terminate example_env None example_root example_world)"
  by code_simp

text \<open>
  C7, amended: \<^verbatim>\<open>terminate(reason)\<close> sets the node's status to terminated and
  terminates every child, and so every descendant, each child with the reason derived from
  the node's id and the given reason; the children map keeps its keys. It is idempotent up
  to \<^verbatim>\<open>updatedAt\<close>: a second call raises no error (the operation has no failing
  branch), leaves the status terminated, and leaves the node and its descendants in the
  same state as after the first call except for their \<^verbatim>\<open>updatedAt\<close> timestamps,
  which it sets anew.
\<close>

theorem terminate_idempotent_up_to_updatedAt:
  "ag_status (core (fst (terminate e reason this w))) = TERMINATED
   \<and> map fst (children (fst (terminate e reason this w))) = map fst (children this)
   \<and> (\<forall>d \<in> set (getAllDescendants (fst (terminate e reason this w))).
         ag_status (core d) = TERMINATED)
   \<and> (\<forall>(k, c) \<in> set (children this).
         (ag_id (core c),
          Some (''Parent agent '' @ ag_id (core this) @ '' terminated: ''
                  @ reason_or_unknown reason))
         \<in> set (terminateLog (snd (terminate e reason this w))))
   \<and> ag_status (core (fst (terminate e reason2 (fst (terminate e reason this w)) w2)))
       = TERMINATED
   \<and> forget_updatedAt (fst (terminate e reason2 (fst (terminate e reason this w)) w2))
       = forget_updatedAt (fst (terminate e reason this w))"
  using terminate_descendants(1) [of e reason this w] child_in_terminate_calls [of _ _ this reason]
  by (auto simp: terminate_keys(1) terminate_idempotent_shape terminate_log(1))

lemma example_root_child:
  "(''uuid-1'', the (map_of (children example_root) ''uuid-1'')) \<in> set (children example_root)"
  "ag_id (core (the (map_of (children example_root) ''uuid-1''))) = ''uuid-1''"
  "ag_id (core example_root) = ''uuid-0''"
  by code_simp+

theorem terminate_idempotent_up_to_updatedAt_witness:
  "(''uuid-1'', the (map_of (children example_root) ''uuid-1'')) \<in> set (children example_root)
   \<and> (''uuid-1'', Some ''Parent agent uuid-0 terminated: Task timeout'')
       \<in> set (terminateLog (snd (terminate example_env (Some ''Task timeout'')
                                    example_root example_world)))"
  using terminate_idempotent_up_to_updatedAt
          [of example_env "Some ''Task timeout''" example_root example_world None example_world]
        example_root_child
  by (auto simp: reason_or_unknown_def)

section \<open>Recreation\<close>


lemma with_defaults_present:
  "cfg_timeout (with_defaults c) \<noteq> Absent" "cfg_maxRetries (with_defaults c) \<noteq> Absent"
  by (simp_all add: with_defaults_def spread_over_def split: field.splits)

lemma spread_config_present:
  "cfg_timeout base \<noteq> Absent \<Longrightarrow> cfg_timeout (spread_config base over) \<noteq> Absent"
  "cfg_maxRetries base \<noteq> Absent \<Longrightarrow> cfg_maxRetries (spread_config base over) \<noteq> Absent"
  by (simp_all add: spread_config_def spread_over_def split: field.splits)







section \<open>The bounded error history\<close>

lemma push_error_length: "length h \<le> 20 \<Longrightarrow> length (push_error err h) \<le> 20"
  by (simp add: push_error_def Let_def)

lemma push_error_drop:
  assumes that: "length h \<le> 20"
  shows "push_error err h = drop (length (h @ [err]) - 20) (h @ [err])"
proof (cases "length h = 20")
  case True
  then have "length (h @ [err]) - 20 = Suc 0" by simp
  then have "drop (length (h @ [err]) - 20) (h @ [err]) = tl (h @ [err])"
    by (simp only: drop_Suc drop_0)
  then show ?thesis using True by (simp add: push_error_def Let_def)
next
  case False
  then show ?thesis using that by (simp add: push_error_def Let_def)
qed

lemma push_error_evicts:
  "length h = 20 \<Longrightarrow> push_error err h = tl h @ [err]"
  by (cases h) (auto simp: push_error_def Let_def)

lemma recordError_history:
  "ag_errorHistory (fst (recordError e err c w)) = push_error err (ag_errorHistory c)"
  using recordError_core[of e err c w] by auto

lemma last_twenty_append:
  "drop (length (drop (length xs - 20) xs @ ys) - 20) (drop (length xs - 20) xs @ ys)
     = drop (length (xs @ ys) - 20) (xs @ ys)"
proof -
  let ?b = "length xs - 20"
  have e: "drop ?b xs @ ys = drop ?b (xs @ ys)" by simp
  have "drop (length (drop ?b (xs @ ys)) - 20) (drop ?b (xs @ ys))
          = drop (length (drop ?b (xs @ ys)) - 20 + ?b) (xs @ ys)"
    by (simp only: drop_drop)
  moreover have "length (drop ?b (xs @ ys)) - 20 + ?b = length (xs @ ys) - 20"
    by simp
  ultimately show ?thesis unfolding e by simp
qed

lemma recordErrors_history:
  "length (ag_errorHistory c) \<le> 20 \<Longrightarrow>
   ag_errorHistory (fst (recordErrors e errs c w))
     = drop (length (ag_errorHistory c @ errs) - 20) (ag_errorHistory c @ errs)"
proof (induction errs arbitrary: c w)
  case Nil
  then show ?case by simp
next
  case (Cons err errs)
  let ?c1 = "fst (recordError e err c w)"
  let ?w1 = "snd (recordError e err c w)"
  let ?h = "ag_errorHistory c"
  have h1: "ag_errorHistory ?c1 = drop (length (?h @ [err]) - 20) (?h @ [err])"
    using Cons.prems by (simp add: recordError_history push_error_drop)
  have l1: "length (ag_errorHistory ?c1) \<le> 20"
    using Cons.prems by (simp add: recordError_history push_error_length)
  have "ag_errorHistory (fst (recordErrors e (err # errs) c w))
        = ag_errorHistory (fst (recordErrors e errs ?c1 ?w1))"
    by (simp add: split_def Let_def)
  also have "\<dots> = drop (length (ag_errorHistory ?c1 @ errs) - 20) (ag_errorHistory ?c1 @ errs)"
    using Cons.IH[OF l1] by simp
  also have "\<dots> = drop (length (?h @ err # errs) - 20) (?h @ err # errs)"
    unfolding h1 using last_twenty_append[of "?h @ [err]" errs] by simp
  finally show ?case .
qed


section \<open>The coordinator: what the loop leaves of the node itself\<close>

lemma dispatchTask_core: "core (fst (snd (dispatchTask e st t this w))) = core this"
  by (auto simp: dispatchTask_def split_def Let_def split: option.splits)

lemma addChild_core:
  "core (fst (snd (addChild e config this w)))
     = (core this)\<lparr>ag_updatedAt := ag_updatedAt (core (fst (snd (addChild e config this w))))\<rparr>"
  by (simp add: addChild_def split_def Let_def)

lemma acquire_worker_core:
  "core (fst (snd (acquire_worker e this w)))
     = (core this)\<lparr>ag_updatedAt := ag_updatedAt (core (fst (snd (acquire_worker e this w))))\<rparr>"
proof (cases "findAvailableChild this")
  case None
  show ?thesis
  proof (cases "fst (addChild e (childConfig_for this) this w)")
    case (Inl a)
    then show ?thesis using None addChild_core[of e "childConfig_for this" this w]
      by (simp add: acquire_worker_def split_def)
  next
    case (Inr b)
    then show ?thesis using None addChild_core[of e "childConfig_for this" this w]
      by (simp add: acquire_worker_def split_def Let_def)
  qed
next
  case (Some a)
  then show ?thesis by (simp add: acquire_worker_def split_def)
qed

lemma retry_core:
  "core (fst (snd (retry_if_error_loop e st k r rs this w))) = core this"
  by (auto simp: retry_if_error_loop_def split_def Let_def dispatchTask_core
      split: option.splits sum.splits)

lemma process_subTask_history:
  "ag_errorHistory (core (fst (snd (process_subTask e st rs this w))))
     = ag_errorHistory (core this)"
proof -
  obtain x this1 w1 where a: "acquire_worker e this w = (x, this1, w1)"
    by (cases "acquire_worker e this w")
  have h1: "ag_errorHistory (core this1) = ag_errorHistory (core this)"
    using acquire_worker_core[of e this w] a by (metis agent_core.select_convs(15) agent_core.surjective agent_core.update_convs(16) fst_conv snd_conv)
  show ?thesis
  proof (cases x)
    case (Inl err)
    then show ?thesis using a h1 by (simp add: process_subTask_def)
  next
    case (Inr k)
    obtain y this2 w2 where d: "dispatchTask e st (Some k) this1 w1 = (y, this2, w2)"
      by (cases "dispatchTask e st (Some k) this1 w1")
    have h2: "core this2 = core this1" using dispatchTask_core[of e st "Some k" this1 w1] d by simp
    show ?thesis
    proof (cases y)
      case (Inl err)
      then show ?thesis using a Inr d h1 h2 by (simp add: process_subTask_def)
    next
      case (Inr result)
      then show ?thesis using a \<open>x = Inr k\<close> d h1 h2
        by (simp add: process_subTask_def retry_core)
    qed
  qed
qed

lemma process_subTasks_history:
  "ag_errorHistory (core (fst (snd (process_subTasks e sts rs this w))))
     = ag_errorHistory (core this)"
proof (induction sts arbitrary: rs this w)
  case Nil
  show ?case by simp
next
  case (Cons st sts)
  obtain x this1 w1 where p: "process_subTask e st rs this w = (x, this1, w1)"
    by (cases "process_subTask e st rs this w")
  have h: "ag_errorHistory (core this1) = ag_errorHistory (core this)"
    using process_subTask_history[of e st rs this w] p by simp
  show ?case using p h Cons.IH by (cases x) simp_all
qed

lemma RootAgent_executeTask_history:
  "ag_errorHistory (core (fst (snd (RootAgent_executeTask e task this w))))
     = ag_errorHistory (core this)
   \<or> (\<exists>err. ag_errorHistory (core (fst (snd (RootAgent_executeTask e task this w))))
        = push_error err (ag_errorHistory (core this)))"
proof -
  define this1 where "this1 = Agent ((fst (updateStatus e RUNNING (core this) w))\<lparr>ag_currentTask := Some task\<rparr>) (children this)"
  define w1 where "w1 = snd (updateStatus e RUNNING (core this) w)"
  have h1: "ag_errorHistory (core this1) = ag_errorHistory (core this)"
    by (simp add: this1_def updateStatus_eq)
  obtain x this2 w2 where t: "RootAgent_try e task this1 w1 = (x, this2, w2)"
    by (cases "RootAgent_try e task this1 w1")
  define sts where "sts = fst (decomposeTask e task w1)"
  define w1' where "w1' = snd (decomposeTask e task w1)"
  obtain y this3 w3 where p: "process_subTasks e sts [] this1 w1' = (y, this3, w3)"
    by (cases "process_subTasks e sts [] this1 w1'")
  have h3: "ag_errorHistory (core this3) = ag_errorHistory (core this1)"
    using process_subTasks_history[of e sts "[]" this1 w1'] p by simp
  have h2: "ag_errorHistory (core this2) = ag_errorHistory (core this)"
    using t p h3 h1
    by (cases y) (auto simp: RootAgent_try_def split_def Let_def sts_def w1'_def updateStatus_eq reportResult_core)
  show ?thesis
  proof (cases x)
    case (Inr result)
    then show ?thesis using t h2
      by (simp add: RootAgent_executeTask_def split_def Let_def this1_def w1_def)
  next
    case (Inl err)
    have "ag_errorHistory (core (fst (snd (RootAgent_catch e task err this2 w2))))
            = push_error (error_message err) (ag_errorHistory (core this2))"
      by (simp add: RootAgent_catch_def split_def Let_def new_Date_def reportResult_core
          recordError_history updateStatus_eq)
    then show ?thesis using Inl t h2
      by (auto simp: RootAgent_executeTask_def split_def Let_def this1_def w1_def)
  qed
qed


section \<open>The error history under the operations of a node\<close>

lemma ChildAgent_executeTask_history:
  "ag_errorHistory (fst (snd (ChildAgent_executeTask e task c w))) = ag_errorHistory c
   \<or> (\<exists>err. ag_errorHistory (fst (snd (ChildAgent_executeTask e task c w)))
        = push_error err (ag_errorHistory c))"
proof -
  obtain result c' w' cx d m where
    run: "ChildAgent_executeTask e task c w = (Inr result, c', w')"
    and shape: "if res_success result
        then c' = c\<lparr>ag_context := cx, ag_currentTask := Some task, ag_status := COMPLETED,
                     ag_updatedAt := d\<rparr>
             \<and> res_selfTestPassed result = Some True
        else (\<exists>msg. res_error result = Some msg
              \<and> res_selfTestPassed result = Some False
              \<and> c' = c\<lparr>ag_context := cx, ag_currentTask := Some task,
                   ag_errorCount := Suc (ag_errorCount c), ag_lastError := Some msg,
                   ag_errorHistory := push_error msg (ag_errorHistory c),
                   ag_monitor := m,
                   ag_status := (if isInErrorLoop 3 (push_error msg (ag_errorHistory c))
                                 then ERROR_LOOP else FAILED),
                   ag_updatedAt := d\<rparr>)"
    using ChildAgent_executeTask_post [of e task c w] by blast
  show ?thesis using run shape by (auto split: if_splits)
qed

lemma selfTest_history:
  "ag_errorHistory (fst (snd (selfTest e c w))) = ag_errorHistory c"
  using selfTest_frame(1)[of c e w] unfolding only_log_changed_def
  by (metis agent_core.select_convs(15) agent_core.surjective agent_core.update_convs(10))

lemma reportToParent_history:
  "ag_errorHistory (fst (reportToParent e r c w)) = ag_errorHistory c"
  using reportToParent_core[of e r c w] by auto

lemma terminate_history:
  "ag_errorHistory (core (fst (terminate e r a w))) = ag_errorHistory (core a)"
  by (subst terminate_core) simp

lemma removeChild_history:
  "ag_errorHistory (core (fst (snd (removeChild e k this w)))) = ag_errorHistory (core this)"
  by (simp add: removeChild_def split_def Let_def split: option.splits)

lemma addChild_history:
  "ag_errorHistory (core (fst (snd (addChild e config this w)))) = ag_errorHistory (core this)"
  by (subst addChild_core) simp

lemma initialize_history:
  "ag_errorHistory (fst (RootAgent_initialize e c w)) = ag_errorHistory c"
  "ag_errorHistory (fst (ChildAgent_initialize e c w)) = ag_errorHistory c"
  by (subst RootAgent_initialize_core, simp, subst ChildAgent_initialize_core, simp)

lemma recreate_old:
  "fst (snd (recreate e this w)) = fst (terminate e (Some ''Recreating due to error loop'') this w)"
  by (simp add: recreate_def split_def Let_def)

lemma core_on_core [simp]: "core (fst (on_core f this w)) = fst (f (core this) w)"
  by (simp add: on_core_def split_def Let_def)

lemma apply_op_history:
  assumes "\<not> is_loadState op"
  shows "ag_errorHistory (core (fst (apply_op e op this w))) = ag_errorHistory (core this)
         \<or> (\<exists>err. ag_errorHistory (core (fst (apply_op e op this w)))
               = push_error err (ag_errorHistory (core this)))"
proof (cases op)
  case OpInitialize
  then show ?thesis by (simp add: initialize_history)
next
  case (OpExecuteTask task)
  then show ?thesis
    using RootAgent_executeTask_history[of e task this w]
      ChildAgent_executeTask_history[of e task "core this" w]
    by (simp add: Let_def)
next
  case (OpTerminate r)
  then show ?thesis by (simp add: terminate_history)
next
  case (OpAddChild config)
  then show ?thesis by (simp add: addChild_history)
next
  case (OpRemoveChild k)
  then show ?thesis by (simp add: removeChild_history)
next
  case (OpUpdateStatus s)
  then show ?thesis by (simp add: updateStatus_eq)
next
  case (OpReportResult r)
  then show ?thesis by (simp add: reportResult_core)
next
  case (OpLoadState st)
  then show ?thesis using assms by (simp add: is_loadState_def)
next
  case (OpAddConversationEntry role content)
  then show ?thesis by (simp add: addConversationEntry_def new_Date_def split_def Let_def)
next
  case (OpAddExecutionLog a r)
  then show ?thesis by (simp add: addExecutionLog_eq)
next
  case (OpRecordError err)
  then show ?thesis by (auto simp: recordError_history)
next
  case OpRecreate
  then show ?thesis by (simp add: recreate_old terminate_history)
next
  case (OpDispatchTask st t)
  then show ?thesis by (simp add: dispatchTask_core)
next
  case OpSelfTest
  then show ?thesis by (simp add: selfTest_history)
next
  case (OpReportToParent r)
  then show ?thesis by (simp add: reportToParent_history)
next
  case OpLoadAgentMd
  then show ?thesis by (auto simp: loadAgentMd_def split: option.splits sum.splits)
qed


text \<open>
  C8, as stated: the bound of 20 on the error history is preserved by every operation of
  the node. \<^verbatim>\<open>loadState\<close> installs the error history of the stored state as it is:
  on a node with an empty history and a stored state with 21 entries it leaves 21.
\<close>

theorem loadState_history_counterexample:
  "length (ag_errorHistory (core (Agent example_worker []))) \<le> 20
   \<and> \<not> length (ag_errorHistory (core (fst (apply_op example_env (OpLoadState example_state)
            (Agent example_worker []) example_world)))) \<le> 20"
  by code_simp

text \<open>
  C8, amended: for every node, the error history never exceeds 20 entries after any
  sequence of \<^verbatim>\<open>recordError\<close> calls: from a history of at most 20 entries (a new
  node's is empty) it is the last 20 of the entries held and appended, in append order;
  when a 21st error is pushed the oldest entry is evicted and the others keep their order;
  and the bound is preserved by every operation of the node other than
  \<^verbatim>\<open>loadState\<close>, which installs the stored history unchecked.
\<close>

theorem errorHistory_bounded:
  "(length (ag_errorHistory c) \<le> 20 \<longrightarrow>
      ag_errorHistory (fst (recordErrors e errs c w))
        = drop (length (ag_errorHistory c @ errs) - 20) (ag_errorHistory c @ errs)
      \<and> length (ag_errorHistory (fst (recordErrors e errs c w))) \<le> 20)
   \<and> (length (ag_errorHistory c) = 20 \<longrightarrow>
        ag_errorHistory (fst (recordError e err c w)) = tl (ag_errorHistory c) @ [err])
   \<and> (length (ag_errorHistory (core this)) \<le> 20 \<and> \<not> is_loadState op \<longrightarrow>
        length (ag_errorHistory (core (fst (apply_op e op this w)))) \<le> 20)
   \<and> ag_errorHistory (core (fst (new_Agent e config w))) = []"
proof -
  have 1: "length (ag_errorHistory c) \<le> 20 \<longrightarrow>
      ag_errorHistory (fst (recordErrors e errs c w))
        = drop (length (ag_errorHistory c @ errs) - 20) (ag_errorHistory c @ errs)
      \<and> length (ag_errorHistory (fst (recordErrors e errs c w))) \<le> 20"
    using recordErrors_history[of c e errs w] by auto
  have 2: "length (ag_errorHistory c) = 20 \<longrightarrow>
        ag_errorHistory (fst (recordError e err c w)) = tl (ag_errorHistory c) @ [err]"
    by (simp add: recordError_history push_error_evicts)
  have 3: "length (ag_errorHistory (core this)) \<le> 20 \<and> \<not> is_loadState op \<longrightarrow>
        length (ag_errorHistory (core (fst (apply_op e op this w)))) \<le> 20"
    using apply_op_history[of op e this w] push_error_length by auto
  have 4: "ag_errorHistory (core (fst (new_Agent e config w))) = []"
    by (simp add: new_Agent_fields)
  show ?thesis using 1 2 3 4 by blast
qed

lemma example_history_facts:
  "ag_errorHistory example_worker = []"
  "\<not> is_loadState (OpExecuteTask (example_task ''t1'' ''do it''))"
  "drop (length ([] @ replicate 21 ''E'' @ [''F'']) - 20) ([] @ replicate 21 ''E'' @ [''F''])
     = replicate 19 ''E'' @ [''F'']"
  by code_simp+

theorem errorHistory_bounded_witness:
  "length (ag_errorHistory example_worker) \<le> 20
   \<and> ag_errorHistory (fst (recordErrors example_env (replicate 21 ''E'' @ [''F''])
        example_worker example_world)) = replicate 19 ''E'' @ [''F'']
   \<and> \<not> is_loadState (OpExecuteTask (example_task ''t1'' ''do it''))
   \<and> length (ag_errorHistory (core (fst (apply_op example_env
        (OpExecuteTask (example_task ''t1'' ''do it'')) (Agent example_worker [])
        example_world)))) \<le> 20"
  using errorHistory_bounded
          [of example_worker example_env "replicate 21 ''E'' @ [''F'']" example_world
              "''G''" "Agent example_worker []"
              "OpExecuteTask (example_task ''t1'' ''do it'')"]
        example_history_facts
  by simp

section \<open>The coordinator: rebuilding a worker and retrying\<close>


lemma list_update_last: "(rs @ [r])[length (rs @ [r]) - 1 := r'] = rs @ [r']"
  by simp

lemma worker_returns:
  "\<exists>result. fst (ChildAgent_executeTask e task c w) = Inr result"
  using ChildAgent_executeTask_post[of e task c w] by auto

lemma process_subTask_unfold:
  assumes "acquire_worker e this w = (Inr k, this1, w1)"
    and "dispatchTask e subTask (Some k) this1 w1 = (Inr result, this2, w2)"
  shows "process_subTask e subTask subTaskResults this w
           = retry_if_error_loop e subTask k result (subTaskResults @ [result]) this2 w2"
  using assms by (simp add: process_subTask_def)

lemma dispatched_worker_present:
  assumes "map_of (children this1) k = Some a"
  shows "\<exists>result this2 w2 target.
           dispatchTask e subTask (Some k) this1 w1 = (Inr result, this2, w2)
           \<and> map_of (children this2) k = Some target"
proof -
  obtain result where r: "fst (ChildAgent_executeTask e (isolatedTask subTask) (core a) w1) = Inr result"
    using worker_returns by blast
  show ?thesis using assms r
    by (simp add: dispatchTask_def split_def Let_def map_of_map_set)
qed









end
